theory Spec2Isabelle
  imports Main "HOL-Library.Sublist"
begin

section \<open>Text and characters\<close>

text \<open>
  The analysed document is a JavaScript string. It is modelled as a \<open>string\<close>: a list of
  code units below 256. The patterns of \<^verbatim>\<open>db2sql.completion.ts\<close> only mention ASCII
  characters, so an ident they capture is ASCII and \<^verbatim>\<open>toUpperCase\<close> acts on it
  letter by letter; names of a schema description are taken to be ASCII as well.
\<close>

text \<open>The order of code units, most significant bit first.\<close>

fun bits_le :: "bool list \<Rightarrow> bool list \<Rightarrow> bool" where
  "bits_le [] ys = True"
| "bits_le (x # xs) [] = False"
| "bits_le (x # xs) (y # ys) = (if x = y then bits_le xs ys else y)"

fun msb_bits :: "char \<Rightarrow> bool list" where
  "msb_bits (Char b0 b1 b2 b3 b4 b5 b6 b7) = [b7, b6, b5, b4, b3, b2, b1, b0]"

definition char_le :: "char \<Rightarrow> char \<Rightarrow> bool" where
  "char_le a b = bits_le (msb_bits a) (msb_bits b)"

definition is_lower :: "char \<Rightarrow> bool" where
  "is_lower c = (if char_le (CHR ''a'') c then char_le c (CHR ''z'') else False)"

definition is_upper :: "char \<Rightarrow> bool" where
  "is_upper c = (if char_le (CHR ''A'') c then char_le c (CHR ''Z'') else False)"

text \<open>Upper case clears bit 5 of a lower-case ASCII letter (\<open>a\<close> is 0x61, \<open>A\<close> is
  0x41); lower case sets it.\<close>

fun clear_bit5 :: "char \<Rightarrow> char" where
  "clear_bit5 (Char b0 b1 b2 b3 b4 b5 b6 b7) = Char b0 b1 b2 b3 b4 False b6 b7"

fun set_bit5 :: "char \<Rightarrow> char" where
  "set_bit5 (Char b0 b1 b2 b3 b4 b5 b6 b7) = Char b0 b1 b2 b3 b4 True b6 b7"

definition up_char :: "char \<Rightarrow> char" where
  "up_char c = (if is_lower c then clear_bit5 c else c)"

definition low_char :: "char \<Rightarrow> char" where
  "low_char c = (if is_upper c then set_bit5 c else c)"

definition toUpperCase :: "string \<Rightarrow> string" where
  "toUpperCase s = map up_char s"

text \<open>\<^verbatim>\<open>\s\<close> (and what \<^verbatim>\<open>trim\<close> removes) among the code units below 256:
  tab, line feed, vertical tab, form feed, carriage return, space, no-break space.\<close>

definition ws_ranges :: "(char \<times> char) list" where
  "ws_ranges = [(CHR 0x09, CHR 0x0D), (CHR '' '', CHR '' ''), (CHR 0xA0, CHR 0xA0)]"

text \<open>\<^verbatim>\<open>[A-Za-z0-9_#@$]\<close>, \<^verbatim>\<open>[A-Za-z_#@$]\<close> and the word characters of \<^verbatim>\<open>\b\<close>.\<close>

definition ident_ranges :: "(char \<times> char) list" where
  "ident_ranges = [(CHR ''A'', CHR ''Z''), (CHR ''a'', CHR ''z''), (CHR ''0'', CHR ''9''),
     (CHR ''_'', CHR ''_''), (CHR ''#'', CHR ''#''), (CHR ''@'', CHR ''@''), (CHR ''$'', CHR ''$'')]"

definition ident_start_ranges :: "(char \<times> char) list" where
  "ident_start_ranges = [(CHR ''A'', CHR ''Z''), (CHR ''a'', CHR ''z''),
     (CHR ''_'', CHR ''_''), (CHR ''#'', CHR ''#''), (CHR ''@'', CHR ''@''), (CHR ''$'', CHR ''$'')]"

definition word_ranges :: "(char \<times> char) list" where
  "word_ranges = [(CHR ''A'', CHR ''Z''), (CHR ''a'', CHR ''z''), (CHR ''0'', CHR ''9''),
     (CHR ''_'', CHR ''_'')]"

fun in_ranges :: "(char \<times> char) list \<Rightarrow> char \<Rightarrow> bool" where
  "in_ranges [] c = False"
| "in_ranges ((lo, hi) # rs) c =
     (if char_le lo c then (if char_le c hi then True else in_ranges rs c)
      else in_ranges rs c)"

definition is_space :: "char \<Rightarrow> bool" where
  "is_space c = in_ranges ws_ranges c"

section \<open>Regular expressions as the program uses them\<close>

text \<open>
  Every pattern of the source is written as a value of \<open>re\<close> and run by one backtracking
  matcher that follows the ECMAScript rules: alternatives left to right, greedy and lazy
  repetition, an iteration of \<^verbatim>\<open>*\<close> or \<^verbatim>\<open>?\<close> that consumes nothing is rejected,
  look-ahead is atomic, \<^verbatim>\<open>\b\<close> looks at the characters on both sides. The flag \<open>ci\<close>
  is the \<^verbatim>\<open>i\<close> flag.
\<close>

datatype re =
    Lit string
  | Set "(char \<times> char) list"
  | NSet "(char \<times> char) list"
  | Seq re re
  | Alt re re
  | Star re
  | LazyStar re
  | Opt re
  | Group nat re
  | Ahead re
  | NotAhead re
  | NotBehind "(char \<times> char) list"
  | WordB
  | Bos
  | Eos

text \<open>\<^verbatim>\<open>r+\<close> is \<^verbatim>\<open>r\<close> followed by \<^verbatim>\<open>r*\<close>, \<^verbatim>\<open>r+?\<close> is \<^verbatim>\<open>r\<close> followed by
  \<^verbatim>\<open>r*?\<close>; no pattern of the source has a group under a repetition, so the reset of
  captures at each iteration is not needed.\<close>

definition Plus :: "re \<Rightarrow> re" where
  "Plus r = Seq r (Star r)"

definition LazyPlus :: "re \<Rightarrow> re" where
  "LazyPlus r = Seq r (LazyStar r)"

fun seqs :: "re list \<Rightarrow> re" where
  "seqs [] = Lit []"
| "seqs [r] = r"
| "seqs (r # rs) = Seq r (seqs rs)"

fun alts :: "re list \<Rightarrow> re" where
  "alts [] = NSet [(CHR 0x00, CHR 0xFF)]"
| "alts [r] = r"
| "alts (r # rs) = Alt r (alts rs)"

definition AnyChar :: re where
  "AnyChar = NSet []"

text \<open>With the \<^verbatim>\<open>i\<close> flag a character is in a class when the class has a character
  with the same upper case: the character itself, or the other case of a letter.\<close>

text \<open>A matcher state: the index of the current position, the character just before it
  (\<open>None\<close> at the start of the text), the text from the current position on, and the
  groups captured so far as index ranges (latest first).\<close>

datatype mst =
  MSt (st_pos: nat) (st_prev: "char option") (st_rest: string) (st_groups: "(nat \<times> nat \<times> nat) list")

definition cls_match :: "bool \<Rightarrow> (char \<times> char) list \<Rightarrow> char \<Rightarrow> bool" where
  "cls_match ci rs c =
     (if in_ranges rs c then True
      else if ci then
        (if is_lower c then in_ranges rs (clear_bit5 c)
         else if is_upper c then in_ranges rs (set_bit5 c) else False)
      else False)"

definition chr_eq :: "bool \<Rightarrow> char \<Rightarrow> char \<Rightarrow> bool" where
  "chr_eq ci a b = (if ci then up_char a = up_char b else a = b)"

fun lit_match :: "bool \<Rightarrow> string \<Rightarrow> mst \<Rightarrow> mst list" where
  "lit_match ci [] s = [s]"
| "lit_match ci (a # w) (MSt i p [] g) = []"
| "lit_match ci (a # w) (MSt i p (c # cs) g) =
     (if chr_eq ci a c then lit_match ci w (MSt (Suc i) (Some c) cs g) else [])"

fun step_if :: "(char \<Rightarrow> bool) \<Rightarrow> mst \<Rightarrow> mst list" where
  "step_if f (MSt i p [] g) = []"
| "step_if f (MSt i p (c # cs) g) = (if f c then [MSt (Suc i) (Some c) cs g] else [])"

definition is_word :: "char \<Rightarrow> bool" where
  "is_word c = in_ranges word_ranges c"

definition at_word_boundary :: "mst \<Rightarrow> bool" where
  "at_word_boundary s =
     ((case st_prev s of None \<Rightarrow> False | Some c \<Rightarrow> is_word c)
      \<noteq> (case st_rest s of [] \<Rightarrow> False | c # _ \<Rightarrow> is_word c))"

text \<open>\<open>shorter xs ys\<close> is \<open>length xs < length ys\<close>; an iteration made progress when
  less text is left after it.\<close>

fun shorter :: "'a list \<Rightarrow> 'a list \<Rightarrow> bool" where
  "shorter xs [] = False"
| "shorter [] (y # ys) = True"
| "shorter (x # xs) (y # ys) = shorter xs ys"

lemma shorter_iff: "shorter xs ys = (length xs < length ys)"
  by (induction xs ys rule: shorter.induct) auto

definition progress :: "mst \<Rightarrow> mst \<Rightarrow> bool" where
  "progress s s' = shorter (st_rest s') (st_rest s)"

function ms :: "bool \<Rightarrow> re \<Rightarrow> mst \<Rightarrow> mst list" where
  "ms ci (Lit w) s = lit_match ci w s"
| "ms ci (Set rs) s = step_if (cls_match ci rs) s"
| "ms ci (NSet rs) s = step_if (\<lambda>c. \<not> cls_match ci rs c) s"
| "ms ci (Seq r1 r2) s = concat (map (ms ci r2) (ms ci r1 s))"
| "ms ci (Alt r1 r2) s = ms ci r1 s @ ms ci r2 s"
| "ms ci (Star r) s =
     concat (map (\<lambda>s'. if progress s s' then ms ci (Star r) s' else []) (ms ci r s)) @ [s]"
| "ms ci (LazyStar r) s =
     s # concat (map (\<lambda>s'. if progress s s' then ms ci (LazyStar r) s' else []) (ms ci r s))"
| "ms ci (Opt r) s = filter (progress s) (ms ci r s) @ [s]"
| "ms ci (Group n r) s =
     map (\<lambda>s'. MSt (st_pos s') (st_prev s') (st_rest s') ((n, st_pos s, st_pos s') # st_groups s')) (ms ci r s)"
| "ms ci (Ahead r) s =
     (case ms ci r s of [] \<Rightarrow> [] | s' # _ \<Rightarrow> [MSt (st_pos s) (st_prev s) (st_rest s) (st_groups s')])"
| "ms ci (NotAhead r) s = (case ms ci r s of [] \<Rightarrow> [s] | _ # _ \<Rightarrow> [])"
| "ms ci (NotBehind rs) s =
     (case st_prev s of None \<Rightarrow> [s] | Some c \<Rightarrow> if cls_match ci rs c then [] else [s])"
| "ms ci WordB s = (if at_word_boundary s then [s] else [])"
| "ms ci Bos s = (if st_prev s = None then [s] else [])"
| "ms ci Eos s = (if st_rest s = [] then [s] else [])"
  by pat_completeness auto
termination
  by (relation "measures [\<lambda>(ci, r, s). size r, \<lambda>(ci, r, s). length (st_rest s)]")
     (auto simp: progress_def shorter_iff)

declare ms.simps(6,7) [simp del]

text \<open>The leftmost match at or after the current position: \<^verbatim>\<open>exec\<close> tries every start
  position in turn and keeps the first alternative that succeeds there. The result is
  the state where the match starts and the state where it ends.\<close>

fun search :: "bool \<Rightarrow> re \<Rightarrow> nat \<Rightarrow> char option \<Rightarrow> string \<Rightarrow> (mst \<times> mst) option" where
  "search ci r i p [] =
     (case ms ci r (MSt i p [] []) of [] \<Rightarrow> None | s' # _ \<Rightarrow> Some (MSt i p [] [], s'))"
| "search ci r i p (c # cs) =
     (case ms ci r (MSt i p (c # cs) []) of
        [] \<Rightarrow> search ci r (Suc i) (Some c) cs
      | s' # _ \<Rightarrow> Some (MSt i p (c # cs) [], s'))"

text \<open>What \<^verbatim>\<open>exec\<close> and \<^verbatim>\<open>match\<close> return: \<^verbatim>\<open>index\<close>, the matched text
  \<^verbatim>\<open>m[0]\<close> and the groups; a group that did not take part is \<open>None\<close>
  (\<^verbatim>\<open>undefined\<close>). \<open>t\<close> is the text that is searched.\<close>

datatype rmatch = RMatch (m_index: nat) (m_text: string) (m_groups: "(nat \<times> string) list")

definition substr :: "string \<Rightarrow> nat \<Rightarrow> nat \<Rightarrow> string" where
  "substr t a b = take (b - a) (drop a t)"

definition to_match :: "string \<Rightarrow> mst \<times> mst \<Rightarrow> rmatch" where
  "to_match t p =
     RMatch (st_pos (fst p)) (take (st_pos (snd p) - st_pos (fst p)) (st_rest (fst p)))
       (map (\<lambda>(n, a, b). (n, substr t a b)) (st_groups (snd p)))"

definition grp :: "rmatch \<Rightarrow> nat \<Rightarrow> string option" where
  "grp m n = map_of (m_groups m) n"

text \<open>\<^verbatim>\<open>m[n]\<close> of a group that takes part in every match of its pattern.\<close>

definition grp_s :: "rmatch \<Rightarrow> nat \<Rightarrow> string" where
  "grp_s m n = (case grp m n of None \<Rightarrow> [] | Some g \<Rightarrow> g)"

definition m_end :: "rmatch \<Rightarrow> nat" where
  "m_end m = m_index m + length (m_text m)"

text \<open>\<^verbatim>\<open>text.match(r)\<close> and \<^verbatim>\<open>r.test(text)\<close> for a pattern without the \<^verbatim>\<open>g\<close>
  flag.\<close>

definition match_first :: "bool \<Rightarrow> re \<Rightarrow> string \<Rightarrow> rmatch option" where
  "match_first ci r t = map_option (to_match t) (search ci r 0 None t)"

definition test :: "bool \<Rightarrow> re \<Rightarrow> string \<Rightarrow> bool" where
  "test ci r t = (search ci r 0 None t \<noteq> None)"

text \<open>The loop \<^verbatim>\<open>while ((m = r.exec(text)) !== null)\<close> of a pattern with the \<^verbatim>\<open>g\<close>
  flag: each search starts where the last match ended. A pattern that matches the empty
  text at \<^verbatim>\<open>lastIndex\<close> would keep the source in its loop for ever; every pattern
  that the source runs in such a loop consumes at least one character, so the model
  stops there.\<close>

function exec_from ::
  "bool \<Rightarrow> re \<Rightarrow> string \<Rightarrow> nat \<Rightarrow> char option \<Rightarrow> string \<Rightarrow> rmatch list" where
  "exec_from ci r t i p suf =
     (case search ci r i p suf of
        None \<Rightarrow> []
      | Some (s0, s1) \<Rightarrow>
          to_match t (s0, s1) #
          (if shorter (st_rest s1) suf then exec_from ci r t (st_pos s1) (st_prev s1) (st_rest s1) else []))"
  by pat_completeness auto
termination
  by (relation "measure (\<lambda>(ci, r, t, i, p, suf). length suf)") (auto simp: shorter_iff)

declare exec_from.simps [simp del]

definition exec_all :: "bool \<Rightarrow> re \<Rightarrow> string \<Rightarrow> rmatch list" where
  "exec_all ci r t = exec_from ci r t 0 None t"

text \<open>\<^verbatim>\<open>text.replace(r, f)\<close>: with the \<^verbatim>\<open>g\<close> flag every match is replaced by what
  \<open>f\<close> makes of it, and the search goes on after the match (one character further after
  an empty match); without the flag only the first match is replaced.\<close>

function replace_from ::
  "bool \<Rightarrow> re \<Rightarrow> (rmatch \<Rightarrow> string) \<Rightarrow> string \<Rightarrow> nat \<Rightarrow> char option \<Rightarrow> string \<Rightarrow> string" where
  "replace_from ci r f t i p suf =
     (case search ci r i p suf of
        None \<Rightarrow> suf
      | Some (s0, s1) \<Rightarrow>
          take (st_pos s0 - i) suf @ f (to_match t (s0, s1)) @
          (if shorter (st_rest s1) (st_rest s0)
           then (if shorter (st_rest s1) suf
                 then replace_from ci r f t (st_pos s1) (st_prev s1) (st_rest s1)
                 else st_rest s1)
           else (case st_rest s1 of
                   [] \<Rightarrow> []
                 | c # cs \<Rightarrow>
                     c # (if shorter cs suf
                          then replace_from ci r f t (Suc (st_pos s1)) (Some c) cs else cs))))"
  by pat_completeness auto
termination
  by (relation "measure (\<lambda>(ci, r, f, t, i, p, suf). length suf)") (auto simp: shorter_iff)

declare replace_from.simps [simp del]

definition replace_all :: "bool \<Rightarrow> re \<Rightarrow> (rmatch \<Rightarrow> string) \<Rightarrow> string \<Rightarrow> string" where
  "replace_all ci r f t = replace_from ci r f t 0 None t"

definition replace_first :: "bool \<Rightarrow> re \<Rightarrow> (rmatch \<Rightarrow> string) \<Rightarrow> string \<Rightarrow> string" where
  "replace_first ci r f t =
     (case search ci r 0 None t of
        None \<Rightarrow> t
      | Some (s0, s1) \<Rightarrow> take (st_pos s0) t @ f (to_match t (s0, s1)) @ st_rest s1)"

section \<open>String operations of the host language\<close>

definition quote :: char where
  "quote = CHR 0x27"

definition newline :: char where
  "newline = CHR 0x0A"

definition spaces :: "nat \<Rightarrow> string" where
  "spaces n = replicate n (CHR '' '')"

text \<open>\<^verbatim>\<open>s.substring(a, b)\<close> clamps both indices to the length and swaps them when
  \<open>b < a\<close>; \<^verbatim>\<open>s.substring(a)\<close> runs to the end.\<close>

definition substring :: "string \<Rightarrow> nat \<Rightarrow> nat \<Rightarrow> string" where
  "substring t a b =
     (let a' = min a (length t); b' = min b (length t)
      in take (max a' b' - min a' b') (drop (min a' b') t))"

definition substring_from :: "string \<Rightarrow> nat \<Rightarrow> string" where
  "substring_from t a = drop a t"

text \<open>\<^verbatim>\<open>s.indexOf(w)\<close>, with \<open>None\<close> for \<^verbatim>\<open>-1\<close>.\<close>

fun is_prefix :: "string \<Rightarrow> string \<Rightarrow> bool" where
  "is_prefix [] t = True"
| "is_prefix (a # w) [] = False"
| "is_prefix (a # w) (c # cs) = (if a = c then is_prefix w cs else False)"

fun index_from :: "string \<Rightarrow> nat \<Rightarrow> string \<Rightarrow> nat option" where
  "index_from w i [] = (if w = [] then Some i else None)"
| "index_from w i (c # cs) = (if is_prefix w (c # cs) then Some i else index_from w (Suc i) cs)"

definition indexOf :: "string \<Rightarrow> string \<Rightarrow> nat option" where
  "indexOf t w = index_from w 0 t"

definition has_dot :: "string \<Rightarrow> bool" where
  "has_dot t = (indexOf t ''.'' \<noteq> None)"

text \<open>\<^verbatim>\<open>s.split(c)\<close> for a one-character separator; the result is never empty.\<close>

fun split_on :: "char \<Rightarrow> string \<Rightarrow> string list" where
  "split_on sep [] = [[]]"
| "split_on sep (c # cs) =
     (case split_on sep cs of
        [] \<Rightarrow> [[c]]
      | w # ws \<Rightarrow> if c = sep then [] # w # ws else (c # w) # ws)"

text \<open>\<^verbatim>\<open>name.indexOf('.') >= 0 ? name.split('.')[1] : name\<close>.\<close>

definition shortNameOf :: "string \<Rightarrow> string" where
  "shortNameOf name =
     (if has_dot name
      then (case split_on (CHR ''.'') name of a # b # _ \<Rightarrow> b | _ \<Rightarrow> [])
      else name)"

definition trim :: "string \<Rightarrow> string" where
  "trim t = rev (dropWhile is_space (rev (dropWhile is_space t)))"

fun join :: "string \<Rightarrow> string list \<Rightarrow> string" where
  "join sep [] = []"
| "join sep [x] = x"
| "join sep (x # y # ys) = x @ sep @ join sep (y # ys)"

text \<open>\<^verbatim>\<open>xs.indexOf(x) >= 0\<close> on an array of strings.\<close>

definition contains :: "string list \<Rightarrow> string \<Rightarrow> bool" where
  "contains xs x = List.member xs x"

text \<open>The first element of an array that satisfies a test (a \<^verbatim>\<open>for\<close> loop left by
  \<^verbatim>\<open>break\<close> at the first hit).\<close>

definition find_first :: "('a \<Rightarrow> bool) \<Rightarrow> 'a list \<Rightarrow> 'a option" where
  "find_first f xs = List.find f xs"

text \<open>A string is truthy when it is present and not empty.\<close>

definition truthy :: "string option \<Rightarrow> bool" where
  "truthy x = (case x of None \<Rightarrow> False | Some v \<Rightarrow> v \<noteq> [])"

section \<open>Data model\<close>

text \<open>The schema description of \<^verbatim>\<open>db2sql.types.ts\<close>; an optional field is an
  \<open>option\<close>.\<close>

record DB2Column =
  c_name :: string
  c_dataType :: "string option"
  c_description :: "string option"
  c_nullable :: "bool option"
  c_isPrimaryKey :: "bool option"

record DB2Table =
  t_name :: string
  t_schema :: "string option"
  t_description :: "string option"
  t_columns :: "DB2Column list option"
  t_type :: "string option"

record DB2Schema =
  s_name :: string
  s_description :: "string option"
  s_tables :: "DB2Table list option"

record DB2SchemaConfig =
  cfg_schemas :: "DB2Schema list option"
  cfg_tables :: "DB2Table list option"
  cfg_defaultSchema :: "string option"
  cfg_showSchemaPrefix :: "bool option"

datatype severity = Error | Warning | Info | Hint

record DB2SQLDiagnostic =
  startLineNumber :: nat
  startColumn :: nat
  endLineNumber :: nat
  endColumn :: nat
  message :: string
  severity :: severity

record CTEColumn =
  pc_name :: string
  pc_expression :: "string option"
  pc_sourceTable :: "string option"
  pc_sourceColumn :: "string option"

record ParsedCTEWithContext =
  cte_name :: string
  cte_columns :: "CTEColumn list"
  startOffset :: nat
  endOffset :: nat
  bodyStartOffset :: nat
  bodyEndOffset :: nat
  fromTables :: "string list"

section \<open>Positions\<close>

text \<open>\<^verbatim>\<open>getPositionFromOffset\<close>: line and column, both from 1, of an offset; the scan
  stops at the offset or at the end of the text.\<close>

fun positionScan :: "string \<Rightarrow> nat \<Rightarrow> nat \<Rightarrow> nat \<Rightarrow> nat \<times> nat" where
  "positionScan [] off line col = (line, col)"
| "positionScan (c # cs) off line col =
     (case off of
        0 \<Rightarrow> (line, col)
      | Suc k \<Rightarrow>
          if c = newline then positionScan cs k (Suc line) 1
          else positionScan cs k line (Suc col))"

definition getPositionFromOffset :: "string \<Rightarrow> nat \<Rightarrow> nat \<times> nat" where
  "getPositionFromOffset t off = positionScan t off 1 1"

definition diag_at :: "nat \<times> nat \<Rightarrow> nat \<Rightarrow> string \<Rightarrow> severity \<Rightarrow> DB2SQLDiagnostic" where
  "diag_at p len msg sev =
     \<lparr>startLineNumber = fst p, startColumn = snd p, endLineNumber = fst p,
      endColumn = snd p + len, message = msg, severity = sev\<rparr>"

section \<open>Common pieces of the patterns\<close>

definition ws :: re where
  "ws = Set ws_ranges"

definition identChar :: re where
  "identChar = Set ident_ranges"

text \<open>\<^verbatim>\<open>[A-Za-z_#@$][A-Za-z0-9_#@$]*\<close> and \<^verbatim>\<open>[A-Za-z0-9_#@$]+(?:\.[A-Za-z0-9_#@$]+)?\<close>.\<close>

definition ident :: re where
  "ident = Seq (Set ident_start_ranges) (Star identChar)"

definition tableRef :: re where
  "tableRef = Seq (Plus identChar) (Opt (Seq (Lit ''.'') (Plus identChar)))"

definition notIdentBehind :: re where
  "notIdentBehind = NotBehind ident_ranges"

definition notIdentAhead :: re where
  "notIdentAhead = NotAhead identChar"

section \<open>Parsing the common table expressions\<close>

text \<open>\<^verbatim>\<open>/\bWITH\s+/i\<close>\<close>

definition withPattern :: re where
  "withPattern = seqs [WordB, Lit ''WITH'', Plus ws]"

text \<open>\<^verbatim>\<open>/([A-Za-z_#@$][A-Za-z0-9_#@$]*)\s+AS\s*\(/gi\<close>\<close>

definition ctePattern :: re where
  "ctePattern = seqs [Group 1 ident, Plus ws, Lit ''AS'', Star ws, Lit ''('']"

text \<open>\<^verbatim>\<open>/SELECT\s+([\s\S]*?)(?=\s+FROM\s+)/i\<close>\<close>

definition selectFromPattern :: re where
  "selectFromPattern =
     seqs [Lit ''SELECT'', Plus ws, Group 1 (LazyStar AnyChar),
           Ahead (seqs [Plus ws, Lit ''FROM'', Plus ws])]"

text \<open>\<^verbatim>\<open>/^\s*(DISTINCT|ALL)\s+/i\<close>\<close>

definition distinctPattern :: re where
  "distinctPattern = seqs [Bos, Star ws, Group 1 (Alt (Lit ''DISTINCT'') (Lit ''ALL'')), Plus ws]"

text \<open>\<^verbatim>\<open>/^([\s\S]+?)\s+AS\s+([A-Za-z_#@$][A-Za-z0-9_#@$]*)\s*$/i\<close>\<close>

definition asPattern :: re where
  "asPattern =
     seqs [Bos, Group 1 (LazyPlus AnyChar), Plus ws, Lit ''AS'', Plus ws, Group 2 ident,
           Star ws, Eos]"

text \<open>\<^verbatim>\<open>/^([A-Za-z_#@$][A-Za-z0-9_#@$]*)\.([A-Za-z_#@$][A-Za-z0-9_#@$]*)$/\<close> and
  \<^verbatim>\<open>/^([A-Za-z_#@$][A-Za-z0-9_#@$]*)$/\<close>\<close>

definition simplePattern :: re where
  "simplePattern = seqs [Bos, Group 1 ident, Lit ''.'', Group 2 ident, Eos]"

definition colPattern :: re where
  "colPattern = seqs [Bos, Group 1 ident, Eos]"

text \<open>\<^verbatim>\<open>/(?:FROM|JOIN)\s+([A-Za-z0-9_#@$]+(?:\.[A-Za-z0-9_#@$]+)?)/gi\<close>\<close>

definition fromRegex :: re where
  "fromRegex = seqs [Alt (Lit ''FROM'') (Lit ''JOIN''), Plus ws, Group 1 tableRef]"

text \<open>The walk to the parenthesis that closes the body: \<open>pos\<close> runs while text and an open
  parenthesis are left; a quote toggles the string state, and parentheses count outside
  strings only.\<close>

fun findClose :: "string \<Rightarrow> nat \<Rightarrow> int \<Rightarrow> bool \<Rightarrow> nat" where
  "findClose [] pos depth inString = pos"
| "findClose (c # cs) pos depth inString =
     (if depth > 0 then
        (if c = quote \<and> \<not> inString then findClose cs (Suc pos) depth True
         else if c = quote \<and> inString then findClose cs (Suc pos) depth False
         else if \<not> inString then
           (if c = CHR ''('' then findClose cs (Suc pos) (depth + 1) inString
            else if c = CHR '')'' then findClose cs (Suc pos) (depth - 1) inString
            else findClose cs (Suc pos) depth inString)
         else findClose cs (Suc pos) depth inString)
      else pos)"

text \<open>The split of a select list at the commas outside parentheses and strings; every
  piece is trimmed, and a last piece of white space only is dropped.\<close>

fun splitColumns :: "string \<Rightarrow> string \<Rightarrow> int \<Rightarrow> bool \<Rightarrow> string list" where
  "splitColumns [] currentExpr parenDepth inStr =
     (if trim currentExpr \<noteq> [] then [trim currentExpr] else [])"
| "splitColumns (c # cs) currentExpr parenDepth inStr =
     (if c = quote \<and> \<not> inStr then splitColumns cs (currentExpr @ [c]) parenDepth True
      else if c = quote \<and> inStr then splitColumns cs (currentExpr @ [c]) parenDepth False
      else if \<not> inStr then
        (if c = CHR ''('' then splitColumns cs (currentExpr @ [c]) (parenDepth + 1) inStr
         else if c = CHR '')'' then splitColumns cs (currentExpr @ [c]) (parenDepth - 1) inStr
         else if c = CHR '','' \<and> parenDepth = 0
           then trim currentExpr # splitColumns cs [] parenDepth inStr
         else splitColumns cs (currentExpr @ [c]) parenDepth inStr)
      else splitColumns cs (currentExpr @ [c]) parenDepth inStr)"

text \<open>One expression of the select list: nothing for an empty one or \<^verbatim>\<open>*\<close>, the alias of
  \<^verbatim>\<open>expr AS alias\<close>, the column of \<^verbatim>\<open>table.column\<close>, a bare column name, and
  nothing for anything else.\<close>

definition parseColumnExpr :: "string \<Rightarrow> CTEColumn list" where
  "parseColumnExpr expr =
     (let cleanExpr = trim (replace_first True distinctPattern (\<lambda>m. []) expr)
      in if cleanExpr = [] \<or> cleanExpr = ''*'' then []
         else (case match_first True asPattern cleanExpr of
                 Some asMatch \<Rightarrow>
                   [\<lparr>pc_name = toUpperCase (grp_s asMatch 2),
                     pc_expression = Some (trim (grp_s asMatch 1)),
                     pc_sourceTable = None, pc_sourceColumn = None\<rparr>]
               | None \<Rightarrow>
                   (case match_first False simplePattern cleanExpr of
                      Some simpleMatch \<Rightarrow>
                        [\<lparr>pc_name = toUpperCase (grp_s simpleMatch 2),
                          pc_expression = None,
                          pc_sourceTable = Some (toUpperCase (grp_s simpleMatch 1)),
                          pc_sourceColumn = Some (toUpperCase (grp_s simpleMatch 2))\<rparr>]
                    | None \<Rightarrow>
                        (case match_first False colPattern cleanExpr of
                           Some colMatch \<Rightarrow>
                             [\<lparr>pc_name = toUpperCase (grp_s colMatch 1),
                               pc_expression = None, pc_sourceTable = None,
                               pc_sourceColumn = Some (toUpperCase (grp_s colMatch 1))\<rparr>]
                         | None \<Rightarrow> []))))"

definition parseColumns :: "string \<Rightarrow> CTEColumn list" where
  "parseColumns cteBody =
     (case match_first True selectFromPattern cteBody of
        None \<Rightarrow> []
      | Some selectMatch \<Rightarrow>
          concat (map parseColumnExpr (splitColumns (grp_s selectMatch 1) [] 0 False)))"

definition parseOneCTE :: "string \<Rightarrow> rmatch \<Rightarrow> ParsedCTEWithContext" where
  "parseOneCTE t m =
     (let openParenPos = m_index m + length (m_text m) - 1;
          pos = findClose (drop (openParenPos + 1) t) (openParenPos + 1) 1 False;
          cteBody = substring t (openParenPos + 1) (pos - 1)
      in \<lparr>cte_name = toUpperCase (grp_s m 1),
          cte_columns = parseColumns cteBody,
          startOffset = m_index m,
          endOffset = pos,
          bodyStartOffset = openParenPos + 1,
          bodyEndOffset = pos - 1,
          fromTables = map (\<lambda>fromMatch. toUpperCase (grp_s fromMatch 1))
                         (exec_all True fromRegex cteBody)\<rparr>)"

definition parseCTEs :: "string \<Rightarrow> ParsedCTEWithContext list" where
  "parseCTEs t =
     (if \<not> test True withPattern t then []
      else map (parseOneCTE t) (exec_all True ctePattern t))"

section \<open>The validator: structural checks\<close>

text \<open>\<^verbatim>\<open>sqlKeywords\<close>, the keywords that are skipped when identifiers are validated.\<close>

definition sqlKeywords :: "string list" where
  "sqlKeywords =
     [''SELECT'', ''FROM'', ''WHERE'', ''AND'', ''OR'', ''AS'', ''ON'', ''JOIN'', ''LEFT'',
      ''RIGHT'', ''INNER'', ''OUTER'', ''FULL'', ''CROSS'', ''GROUP'', ''BY'', ''ORDER'',
      ''HAVING'', ''UNION'', ''EXCEPT'', ''INTERSECT'', ''CASE'', ''WHEN'', ''THEN'', ''ELSE'',
      ''END'', ''NULL'', ''NOT'', ''IN'', ''BETWEEN'', ''LIKE'', ''EXISTS'', ''IS'', ''TRUE'',
      ''FALSE'', ''DISTINCT'', ''ALL'', ''ASC'', ''DESC'', ''FETCH'', ''FIRST'', ''ROWS'',
      ''ONLY'', ''LIMIT'', ''OFFSET'', ''MAX'', ''MIN'', ''SUM'', ''AVG'', ''COUNT'', ''CAST'',
      ''COALESCE'', ''NULLIF'', ''TRIM'', ''UPPER'', ''LOWER'', ''SUBSTRING'', ''SUBSTR'',
      ''LENGTH'', ''CONCAT'', ''DATE'', ''TIME'', ''TIMESTAMP'', ''CHAR'', ''VARCHAR'',
      ''INTEGER'', ''DECIMAL'', ''NUMERIC'', ''DIGITS'', ''FLOAT'', ''DOUBLE'', ''REAL'',
      ''SMALLINT'', ''BIGINT'', ''CLOB'', ''BLOB'', ''DBCLOB'', ''DECFLOAT'', ''XML'',
      ''BOOLEAN'', ''TIMESTAMPDIFF'', ''LPAD'', ''RPAD'', ''ROW_NUMBER'', ''OVER'',
      ''PARTITION'', ''LAG'', ''LEAD'', ''RANK'', ''DENSE_RANK'', ''NTILE'', ''VALUES'',
      ''INSERT'', ''UPDATE'', ''DELETE'', ''SET'', ''INTO'', ''CREATE'', ''ALTER'', ''DROP'',
      ''TABLE'', ''VIEW'', ''INDEX'', ''WITH'', ''RECURSIVE'']"

subsection \<open>The sanitizer\<close>

text \<open>\<^verbatim>\<open>/--[^\n]*/g\<close>, \<^verbatim>\<open>/\/\*[\s\S]*?\*\//g\<close> and \<^verbatim>\<open>/'[^']*'/g\<close>\<close>

definition lineCommentPattern :: re where
  "lineCommentPattern = Seq (Lit ''--'') (Star (NSet [(newline, newline)]))"

definition blockCommentPattern :: re where
  "blockCommentPattern = seqs [Lit ''/*'', LazyStar AnyChar, Lit ''*/'']"

definition stringLiteralPattern :: re where
  "stringLiteralPattern = seqs [Lit [quote], Star (NSet [(quote, quote)]), Lit [quote]]"

text \<open>\<^verbatim>\<open>new Array(match.length + 1).join(' ')\<close> is as many spaces as the match is long;
  \<^verbatim>\<open>match.replace(/[^\n]/g, ' ')\<close> puts a space for every character but the line
  feed.\<close>

definition blankOut :: "rmatch \<Rightarrow> string" where
  "blankOut m = spaces (length (m_text m))"

definition blankOutKeepLines :: "rmatch \<Rightarrow> string" where
  "blankOutKeepLines m = map (\<lambda>c. if c = newline then c else CHR '' '') (m_text m)"

definition stripLineComments :: "string \<Rightarrow> string" where
  "stripLineComments expr = replace_all False lineCommentPattern blankOut expr"

definition stripBlockComments :: "string \<Rightarrow> string" where
  "stripBlockComments expr = replace_all False blockCommentPattern blankOutKeepLines expr"

definition stripStrings :: "string \<Rightarrow> string" where
  "stripStrings expr = replace_all False stringLiteralPattern blankOut expr"

definition stripCommentsAndStrings :: "string \<Rightarrow> string" where
  "stripCommentsAndStrings expr = stripStrings (stripBlockComments (stripLineComments expr))"

subsection \<open>Unclosed strings\<close>

text \<open>The scan keeps \<^verbatim>\<open>inString\<close>, \<^verbatim>\<open>stringStartLine\<close> and \<^verbatim>\<open>stringStartCol\<close>
  across the lines. A quote counts when it is the first character of its line or the
  character before it is not a quote.\<close>

fun stringScanLine ::
  "nat \<Rightarrow> nat \<Rightarrow> char option \<Rightarrow> string \<Rightarrow> bool \<times> nat \<times> nat \<Rightarrow> bool \<times> nat \<times> nat" where
  "stringScanLine lineNum col before [] st = st"
| "stringScanLine lineNum col before (ch # cs) (inString, stringStartLine, stringStartCol) =
     stringScanLine lineNum (Suc col) (Some ch) cs
       (if ch = quote \<and> (col = 0 \<or> before \<noteq> Some quote)
        then (if \<not> inString then (True, lineNum, col)
              else (False, stringStartLine, stringStartCol))
        else (inString, stringStartLine, stringStartCol))"

fun stringScan :: "nat \<Rightarrow> string list \<Rightarrow> bool \<times> nat \<times> nat \<Rightarrow> bool \<times> nat \<times> nat" where
  "stringScan lineNum [] st = st"
| "stringScan lineNum (line # ls) st =
     stringScan (Suc lineNum) ls (stringScanLine lineNum 0 None line st)"

definition unclosedStringCheck :: "string \<Rightarrow> DB2SQLDiagnostic list" where
  "unclosedStringCheck t =
     (case stringScan 0 (split_on newline t) (False, 0, 0) of
        (inString, stringStartLine, stringStartCol) \<Rightarrow>
          if inString
          then [\<lparr>startLineNumber = stringStartLine + 1, startColumn = stringStartCol + 1,
                 endLineNumber = stringStartLine + 1, endColumn = stringStartCol + 2,
                 message = ''Unclosed string literal'', severity = Error\<rparr>]
          else [])"

subsection \<open>Comma before a clause keyword\<close>

text \<open>\<^verbatim>\<open>/,\s*\n?\s*(FROM|WHERE|GROUP\s+BY|ORDER\s+BY|HAVING|UNION|EXCEPT|INTERSECT|FETCH|LIMIT|FOR|;|\))/gi\<close>\<close>

definition trailingCommaRegex :: re where
  "trailingCommaRegex =
     seqs [Lit '','', Star ws, Opt (Lit [newline]), Star ws,
       Group 1 (alts [Lit ''FROM'', Lit ''WHERE'', seqs [Lit ''GROUP'', Plus ws, Lit ''BY''],
          seqs [Lit ''ORDER'', Plus ws, Lit ''BY''], Lit ''HAVING'', Lit ''UNION'',
          Lit ''EXCEPT'', Lit ''INTERSECT'', Lit ''FETCH'', Lit ''LIMIT'', Lit ''FOR'',
          Lit '';'', Lit '')''])]"

definition trailingCommaCheck :: "string \<Rightarrow> DB2SQLDiagnostic list" where
  "trailingCommaCheck t =
     map (\<lambda>commaMatch.
            diag_at (getPositionFromOffset t (m_index commaMatch)) 1
              (''Unexpected comma before '' @ toUpperCase (trim (grp_s commaMatch 1))) Error)
         (exec_all True trailingCommaRegex t)"

subsection \<open>Names of the common table expressions\<close>

text \<open>\<^verbatim>\<open>(?:\/\*[\s\S]*?\*\/|--[^\n]*\n|\s)*\<close>, then
  \<^verbatim>\<open>/WITH\s+(?:...)*([A-Za-z_#@$][A-Za-z0-9_#@$]*)\s+AS\s*\(/gi\<close> and
  \<^verbatim>\<open>/\)\s*,\s*(?:...)*([A-Za-z_#@$][A-Za-z0-9_#@$]*)\s+AS\s*\(/gi\<close>\<close>

definition commentsAndSpace :: re where
  "commentsAndSpace =
     Star (alts [seqs [Lit ''/*'', LazyStar AnyChar, Lit ''*/''],
                 seqs [Lit ''--'', Star (NSet [(newline, newline)]), Lit [newline]],
                 ws])"

definition cteRegex :: re where
  "cteRegex =
     seqs [Lit ''WITH'', Plus ws, commentsAndSpace, Group 1 ident, Plus ws, Lit ''AS'', Star ws,
           Lit ''('']"

definition subsequentCteRegex :: re where
  "subsequentCteRegex =
     seqs [Lit '')'', Star ws, Lit '','', Star ws, commentsAndSpace, Group 1 ident, Plus ws,
           Lit ''AS'', Star ws, Lit ''('']"

definition cteNamesOf :: "string \<Rightarrow> string list" where
  "cteNamesOf t =
     map (\<lambda>cteMatch. toUpperCase (grp_s cteMatch 1)) (exec_all True cteRegex t) @
     map (\<lambda>cteMatch. toUpperCase (grp_s cteMatch 1)) (exec_all True subsequentCteRegex t)"

subsection \<open>Unmatched parentheses\<close>

text \<open>The scan keeps \<^verbatim>\<open>parenDepth\<close>, \<^verbatim>\<open>parenStack\<close> and the diagnostics pushed so far
  across the lines; \<^verbatim>\<open>inStr\<close> starts as false on every line.\<close>

definition unexpectedClosing :: "nat \<Rightarrow> nat \<Rightarrow> DB2SQLDiagnostic" where
  "unexpectedClosing pLineNum pCol =
     \<lparr>startLineNumber = pLineNum + 1, startColumn = pCol + 1, endLineNumber = pLineNum + 1,
      endColumn = pCol + 2, message = ''Unexpected closing parenthesis'', severity = Error\<rparr>"

definition unclosedParen :: "nat \<times> nat \<Rightarrow> DB2SQLDiagnostic" where
  "unclosedParen unclosed =
     \<lparr>startLineNumber = fst unclosed + 1, startColumn = snd unclosed + 1,
      endLineNumber = fst unclosed + 1, endColumn = snd unclosed + 2,
      message = ''Unclosed parenthesis'', severity = Error\<rparr>"

type_synonym paren_state = "int \<times> (nat \<times> nat) list \<times> DB2SQLDiagnostic list"

fun parenScanLine :: "nat \<Rightarrow> nat \<Rightarrow> bool \<Rightarrow> string \<Rightarrow> paren_state \<Rightarrow> paren_state" where
  "parenScanLine pLineNum pCol inStr [] st = st"
| "parenScanLine pLineNum pCol inStr (pChar # cs) (parenDepth, parenStack, ds) =
     (if pChar = quote \<and> \<not> inStr
        then parenScanLine pLineNum (Suc pCol) True cs (parenDepth, parenStack, ds)
      else if pChar = quote \<and> inStr
        then parenScanLine pLineNum (Suc pCol) False cs (parenDepth, parenStack, ds)
      else if \<not> inStr then
        (if pChar = CHR ''(''
           then parenScanLine pLineNum (Suc pCol) inStr cs
                  (parenDepth + 1, parenStack @ [(pLineNum, pCol)], ds)
         else if pChar = CHR '')'' then
           (if parenDepth - 1 < 0
              then parenScanLine pLineNum (Suc pCol) inStr cs
                     (0, parenStack, ds @ [unexpectedClosing pLineNum pCol])
            else parenScanLine pLineNum (Suc pCol) inStr cs
                   (parenDepth - 1, butlast parenStack, ds))
         else parenScanLine pLineNum (Suc pCol) inStr cs (parenDepth, parenStack, ds))
      else parenScanLine pLineNum (Suc pCol) inStr cs (parenDepth, parenStack, ds))"

fun parenScan :: "nat \<Rightarrow> string list \<Rightarrow> paren_state \<Rightarrow> paren_state" where
  "parenScan pLineNum [] st = st"
| "parenScan pLineNum (pLine # ls) st =
     parenScan (Suc pLineNum) ls (parenScanLine pLineNum 0 False pLine st)"

definition parenCheck :: "string \<Rightarrow> DB2SQLDiagnostic list" where
  "parenCheck t =
     (case parenScan 0 (split_on newline t) (0, [], []) of
        (parenDepth, parenStack, ds) \<Rightarrow> ds @ map unclosedParen parenStack)"

subsection \<open>Empty select list, duplicate commas\<close>

text \<open>\<^verbatim>\<open>/SELECT\s+(FROM|WHERE)/gi\<close> and \<^verbatim>\<open>/,\s*,/g\<close>\<close>

definition emptySelectRegex :: re where
  "emptySelectRegex = seqs [Lit ''SELECT'', Plus ws, Group 1 (Alt (Lit ''FROM'') (Lit ''WHERE''))]"

definition emptySelectCheck :: "string \<Rightarrow> DB2SQLDiagnostic list" where
  "emptySelectCheck t =
     map (\<lambda>emptyMatch.
            diag_at (getPositionFromOffset t (m_index emptyMatch)) 6
              ''SELECT requires at least one column or expression'' Error)
         (exec_all True emptySelectRegex t)"

definition doubleCommaRegex :: re where
  "doubleCommaRegex = seqs [Lit '','', Star ws, Lit '','']"

definition doubleCommaCheck :: "string \<Rightarrow> DB2SQLDiagnostic list" where
  "doubleCommaCheck t =
     map (\<lambda>dblCommaMatch.
            diag_at (getPositionFromOffset t (m_index dblCommaMatch))
              (length (m_text dblCommaMatch)) ''Duplicate comma'' Error)
         (exec_all False doubleCommaRegex t)"

subsection \<open>Missing comma in a select list\<close>

text \<open>\<^verbatim>\<open>/\bSELECT\s+([\s\S]*?)(?=\s+FROM\b)/gi\<close> and
  \<^verbatim>\<open>/(?<![A-Za-z0-9_#@$])([A-Za-z_#@$][A-Za-z0-9_#@$]*)\s*\n\s*([A-Za-z_#@$][A-Za-z0-9_#@$]*)(?![A-Za-z0-9_#@$])/g\<close>\<close>

definition selectClauseRegex :: re where
  "selectClauseRegex =
     seqs [WordB, Lit ''SELECT'', Plus ws, Group 1 (LazyStar AnyChar),
           Ahead (seqs [Plus ws, Lit ''FROM'', WordB])]"

definition missingCommaPattern :: re where
  "missingCommaPattern =
     seqs [notIdentBehind, Group 1 ident, Star ws, Lit [newline], Star ws, Group 2 ident,
           notIdentAhead]"

definition sqlKeywordsUpper :: "string list" where
  "sqlKeywordsUpper =
     [''SELECT'', ''FROM'', ''WHERE'', ''AND'', ''OR'', ''AS'', ''ON'', ''JOIN'', ''LEFT'',
      ''RIGHT'', ''INNER'', ''OUTER'', ''FULL'', ''CROSS'', ''GROUP'', ''BY'', ''ORDER'',
      ''HAVING'', ''UNION'', ''EXCEPT'', ''INTERSECT'', ''CASE'', ''WHEN'', ''THEN'', ''ELSE'',
      ''END'', ''NULL'', ''NOT'', ''IN'', ''BETWEEN'', ''LIKE'', ''EXISTS'', ''IS'', ''ASC'',
      ''DESC'', ''DISTINCT'', ''ALL'']"

definition dq :: string where
  "dq = [CHR 0x22]"

definition missingCommaIn :: "string \<Rightarrow> rmatch \<Rightarrow> DB2SQLDiagnostic list" where
  "missingCommaIn t selectClauseMatch =
     (let selectContent = grp_s selectClauseMatch 1;
          selectStartPos = m_index selectClauseMatch + length (m_text selectClauseMatch)
                           - length selectContent;
          strippedContent = stripBlockComments (stripLineComments selectContent)
      in concat (map (\<lambda>mcMatch.
           let firstId = toUpperCase (grp_s mcMatch 1);
               secondId = toUpperCase (grp_s mcMatch 2)
           in if firstId = ''AS'' then []
              else if contains sqlKeywordsUpper secondId then []
              else if contains sqlKeywordsUpper firstId then []
              else [diag_at (getPositionFromOffset t
                       (selectStartPos + m_index mcMatch + length (grp_s mcMatch 1))) 1
                     (''Missing comma between '' @ dq @ grp_s mcMatch 1 @ dq @ '' and '' @ dq
                        @ grp_s mcMatch 2 @ dq) Error])
         (exec_all False missingCommaPattern strippedContent)))"

definition missingCommaCheck :: "string \<Rightarrow> DB2SQLDiagnostic list" where
  "missingCommaCheck t = concat (map (missingCommaIn t) (exec_all True selectClauseRegex t))"

subsection \<open>Incomplete qualified reference\<close>

text \<open>\<^verbatim>\<open>/([A-Za-z0-9_#@$]+)\.\s*(\n|,|FROM|WHERE|AND|OR|ORDER|GROUP|HAVING|UNION|EXCEPT|INTERSECT|;|\))/gi\<close>\<close>

definition incompleteDotRegex :: re where
  "incompleteDotRegex =
     seqs [Group 1 (Plus identChar), Lit ''.'', Star ws,
       Group 2 (alts [Lit [newline], Lit '','', Lit ''FROM'', Lit ''WHERE'', Lit ''AND'',
          Lit ''OR'', Lit ''ORDER'', Lit ''GROUP'', Lit ''HAVING'', Lit ''UNION'',
          Lit ''EXCEPT'', Lit ''INTERSECT'', Lit '';'', Lit '')''])]"

definition incompleteDotCheck :: "string \<Rightarrow> DB2SQLDiagnostic list" where
  "incompleteDotCheck t =
     map (\<lambda>dotMatch.
            diag_at (getPositionFromOffset t (m_index dotMatch + length (grp_s dotMatch 1))) 1
              (''Incomplete reference: expected column name after '' @ dq @ grp_s dotMatch 1
                 @ ''.'' @ dq) Error)
         (exec_all True incompleteDotRegex t)"

text \<open>The diagnostics of the checks that need no schema, in the order in which the source
  pushes them.\<close>

definition structuralChecks :: "string \<Rightarrow> DB2SQLDiagnostic list" where
  "structuralChecks t =
     unclosedStringCheck t @ trailingCommaCheck t @ parenCheck t @ emptySelectCheck t @
     doubleCommaCheck t @ missingCommaCheck t @ incompleteDotCheck t"

section \<open>The validator: checks against the schema\<close>

text \<open>\<^verbatim>\<open>getAllTablesForValidation\<close>: the tables of the flat list, then the tables of
  every schema, each with \<^verbatim>\<open>table.schema || schema.name\<close> as its schema.\<close>

definition getAllTablesForValidation :: "DB2SchemaConfig \<Rightarrow> DB2Table list" where
  "getAllTablesForValidation schemaConfig =
     (case cfg_tables schemaConfig of None \<Rightarrow> [] | Some ts \<Rightarrow> ts) @
     (case cfg_schemas schemaConfig of
        None \<Rightarrow> []
      | Some ss \<Rightarrow>
          concat (map (\<lambda>schema.
            case s_tables schema of
              None \<Rightarrow> []
            | Some ts \<Rightarrow>
                map (\<lambda>table.
                  \<lparr>t_name = t_name table,
                   t_schema = (if truthy (t_schema table) then t_schema table
                               else Some (s_name schema)),
                   t_description = t_description table,
                   t_columns = t_columns table,
                   t_type = t_type table\<rparr>) ts) ss))"

text \<open>\<^verbatim>\<open>(t.schema + '.' + t.name).toUpperCase()\<close>, defined when \<^verbatim>\<open>t.schema\<close> is
  truthy.\<close>

definition qualifiedName :: "DB2Table \<Rightarrow> string option" where
  "qualifiedName t =
     (case t_schema t of
        None \<Rightarrow> None
      | Some sc \<Rightarrow> if sc = [] then None else Some (toUpperCase (sc @ ''.'' @ t_name t)))"

definition fullTableName :: "DB2Table \<Rightarrow> string" where
  "fullTableName t =
     (case qualifiedName t of None \<Rightarrow> toUpperCase (t_name t) | Some q \<Rightarrow> q)"

text \<open>The index of a text that is known to occur in the text searched (the \<^verbatim>\<open>-1\<close> of
  \<^verbatim>\<open>indexOf\<close> does not arise).\<close>

definition indexOfPart :: "string \<Rightarrow> string \<Rightarrow> nat" where
  "indexOfPart t w = (case indexOf t w of None \<Rightarrow> 0 | Some k \<Rightarrow> k)"

subsection \<open>Unknown tables\<close>

text \<open>\<^verbatim>\<open>/(?:FROM|JOIN)\s+([A-Za-z0-9_#@$]+(?:\.[A-Za-z0-9_#@$]+)?)/gi\<close>\<close>

definition tableRefRegex :: re where
  "tableRefRegex = seqs [Alt (Lit ''FROM'') (Lit ''JOIN''), Plus ws, Group 1 tableRef]"

definition unknownTableCheck :: "string \<Rightarrow> DB2Table list \<Rightarrow> string list \<Rightarrow> DB2SQLDiagnostic list" where
  "unknownTableCheck t allTables cteNames =
     (let tableNames = map (\<lambda>tb. toUpperCase (t_name tb)) allTables;
          fullTableNames = map fullTableName allTables
      in concat (map (\<lambda>match.
           let tableName = toUpperCase (grp_s match 1);
               shortName = shortNameOf tableName;
               tableExists = (contains tableNames shortName \<or> contains fullTableNames tableName
                              \<or> contains cteNames shortName \<or> contains cteNames tableName)
           in if \<not> tableExists
              then [diag_at (getPositionFromOffset t
                              (m_index match + indexOfPart (m_text match) (grp_s match 1)))
                      (length (grp_s match 1)) (''Unknown table: '' @ grp_s match 1) Warning]
              else [])
         (exec_all True tableRefRegex t)))"

subsection \<open>Unknown columns of qualified references\<close>

text \<open>\<^verbatim>\<open>/([A-Za-z0-9_#@$]+)\.([A-Za-z0-9_#@$]+)(?!\s*\()/g\<close>\<close>

definition columnRefRegex :: re where
  "columnRefRegex =
     seqs [Group 1 (Plus identChar), Lit ''.'', Group 2 (Plus identChar),
           NotAhead (Seq (Star ws) (Lit ''(''))]"

text \<open>The pattern built at run time,
  \<^verbatim>\<open>'(?:FROM|JOIN)\\s+([A-Za-z0-9_#@$]+(?:\\.[A-Za-z0-9_#@$]+)?)\\s+(?:AS\\s+)?' + tableOrAlias + '\\b'\<close>
  with the \<^verbatim>\<open>i\<close> flag. The name is made of letters, digits and \<^verbatim>\<open>_#@$\<close>; in a
  pattern \<^verbatim>\<open>$\<close> is the end of the text and the other characters stand for
  themselves.\<close>

definition namePattern :: "string \<Rightarrow> re" where
  "namePattern name = seqs (map (\<lambda>c. if c = CHR ''$'' then Eos else Lit [c]) name)"

definition aliasRegex :: "string \<Rightarrow> re" where
  "aliasRegex tableOrAlias =
     seqs [Alt (Lit ''FROM'') (Lit ''JOIN''), Plus ws, Group 1 tableRef, Plus ws,
           Opt (Seq (Lit ''AS'') (Plus ws)), namePattern tableOrAlias, WordB]"

definition cteHasColumn :: "ParsedCTEWithContext \<Rightarrow> string \<Rightarrow> bool" where
  "cteHasColumn cte columnName = list_ex (\<lambda>c. pc_name c = columnName) (cte_columns cte)"

definition unknownCteColumn ::
  "string \<Rightarrow> rmatch \<Rightarrow> ParsedCTEWithContext \<Rightarrow> DB2SQLDiagnostic" where
  "unknownCteColumn t match cte =
     diag_at (getPositionFromOffset t (m_index match + length (grp_s match 1) + 1))
       (length (toUpperCase (grp_s match 2)))
       (''Unknown column '' @ dq @ grp_s match 2 @ dq @ '' in CTE '' @ dq @ cte_name cte @ dq
          @ ''. Available columns: '' @ join '', '' (map pc_name (cte_columns cte)))
       Warning"

definition lastCteEndOf :: "ParsedCTEWithContext list \<Rightarrow> nat" where
  "lastCteEndOf parsedCTEs =
     fold (\<lambda>cte lastCteEnd. if endOffset cte > lastCteEnd then endOffset cte else lastCteEnd)
       parsedCTEs 0"

text \<open>The text in which an alias is looked up: the body of the first expression that
  holds the reference, else the text after the last expression when the reference lies
  behind it, else the whole text.\<close>

definition scopeTextOf :: "string \<Rightarrow> ParsedCTEWithContext list \<Rightarrow> nat \<Rightarrow> string" where
  "scopeTextOf t parsedCTEs columnRefOffset =
     (let scopeText =
            (case find_first (\<lambda>scopeCte. columnRefOffset \<ge> bodyStartOffset scopeCte
                                \<and> columnRefOffset \<le> bodyEndOffset scopeCte) parsedCTEs of
               None \<Rightarrow> t
             | Some scopeCte \<Rightarrow>
                 substring t (bodyStartOffset scopeCte) (bodyEndOffset scopeCte))
      in if scopeText = t \<and> length parsedCTEs > 0
         then (if columnRefOffset > lastCteEndOf parsedCTEs
               then substring_from t (lastCteEndOf parsedCTEs) else scopeText)
         else scopeText)"

definition tableColumnCheck ::
  "string \<Rightarrow> rmatch \<Rightarrow> DB2Table option \<Rightarrow> DB2SQLDiagnostic list" where
  "tableColumnCheck t match foundTable =
     (case foundTable of
        None \<Rightarrow> []
      | Some ft \<Rightarrow>
          (case t_columns ft of
             None \<Rightarrow> []
           | Some cols \<Rightarrow>
               if \<not> list_ex (\<lambda>c. toUpperCase (c_name c) = toUpperCase (grp_s match 2)) cols
               then [diag_at
                       (getPositionFromOffset t (m_index match + length (grp_s match 1) + 1))
                       (length (toUpperCase (grp_s match 2)))
                       (''Unknown column '' @ dq @ grp_s match 2 @ dq @ '' in table '' @ dq
                          @ t_name ft @ dq)
                       Warning]
               else []))"

definition columnRefDiags ::
  "string \<Rightarrow> DB2Table list \<Rightarrow> ParsedCTEWithContext list \<Rightarrow> rmatch \<Rightarrow> DB2SQLDiagnostic list" where
  "columnRefDiags t allTables parsedCTEs match =
     (let tableOrAlias = toUpperCase (grp_s match 1);
          columnName = toUpperCase (grp_s match 2)
      in if contains (map (\<lambda>tb. toUpperCase (t_name tb)) allTables) columnName then []
         else (case find_first (\<lambda>cte. cte_name cte = tableOrAlias) parsedCTEs of
           Some foundCTE \<Rightarrow>
             if \<not> cteHasColumn foundCTE columnName then [unknownCteColumn t match foundCTE]
             else []
         | None \<Rightarrow>
             (let foundTable =
                    find_first (\<lambda>tb. toUpperCase (t_name tb) = tableOrAlias
                                  \<or> qualifiedName tb = Some tableOrAlias) allTables;
                  scopeText = scopeTextOf t parsedCTEs (m_index match)
              in case match_first True (aliasRegex tableOrAlias) scopeText of
                   None \<Rightarrow> tableColumnCheck t match foundTable
                 | Some aliasMatch \<Rightarrow>
                     (let aliasedTableName = toUpperCase (grp_s aliasMatch 1);
                          aliasedShortName = shortNameOf aliasedTableName
                      in case find_first (\<lambda>cte. cte_name cte = aliasedShortName
                                            \<or> cte_name cte = aliasedTableName) parsedCTEs of
                           Some aliasedCTE \<Rightarrow>
                             if \<not> cteHasColumn aliasedCTE columnName
                             then [unknownCteColumn t match aliasedCTE] else []
                         | None \<Rightarrow>
                             tableColumnCheck t match
                               (case find_first
                                       (\<lambda>tb. toUpperCase (t_name tb) = aliasedShortName)
                                       allTables of
                                  None \<Rightarrow> foundTable
                                | Some tb \<Rightarrow> Some tb)))))"

definition columnRefCheck ::
  "string \<Rightarrow> DB2Table list \<Rightarrow> ParsedCTEWithContext list \<Rightarrow> DB2SQLDiagnostic list" where
  "columnRefCheck t allTables parsedCTEs =
     concat (map (columnRefDiags t allTables parsedCTEs) (exec_all False columnRefRegex t))"

subsection \<open>Columns that a common table expression exposes\<close>

text \<open>\<^verbatim>\<open>/\bSELECT\s+\*/i\<close>,
  \<^verbatim>\<open>/(?<![A-Za-z0-9_#@$])([A-Za-z_#@$][A-Za-z0-9_#@$]*(?:\.[A-Za-z_#@$][A-Za-z0-9_#@$]*)?)\.\*/g\<close>
  and
  \<^verbatim>\<open>/(?:FROM|JOIN)\s+([A-Za-z0-9_#@$]+(?:\.[A-Za-z0-9_#@$]+)?)(?:\s+(?:AS\s+)?(?!(?:ON|WHERE|JOIN|LEFT|RIGHT|INNER|OUTER|CROSS|FULL|AND|OR|GROUP|ORDER|HAVING|UNION|LIMIT|FETCH)\b)([A-Za-z_#@$][A-Za-z0-9_#@$]*))?/gi\<close>\<close>

definition selectStarPattern :: re where
  "selectStarPattern = seqs [WordB, Lit ''SELECT'', Plus ws, Lit ''*'']"

definition wildcardRegex :: re where
  "wildcardRegex =
     seqs [notIdentBehind, Group 1 (Seq ident (Opt (Seq (Lit ''.'') ident))), Lit ''.'',
           Lit ''*'']"

definition cteFromJoinRegex :: re where
  "cteFromJoinRegex =
     seqs [Alt (Lit ''FROM'') (Lit ''JOIN''), Plus ws, Group 1 tableRef,
       Opt (seqs [Plus ws, Opt (Seq (Lit ''AS'') (Plus ws)),
          NotAhead (Seq (alts [Lit ''ON'', Lit ''WHERE'', Lit ''JOIN'', Lit ''LEFT'',
             Lit ''RIGHT'', Lit ''INNER'', Lit ''OUTER'', Lit ''CROSS'', Lit ''FULL'',
             Lit ''AND'', Lit ''OR'', Lit ''GROUP'', Lit ''ORDER'', Lit ''HAVING'',
             Lit ''UNION'', Lit ''LIMIT'', Lit ''FETCH'']) WordB),
          Group 2 ident])]"

text \<open>The alias map of a body: for every table of a \<^verbatim>\<open>FROM\<close> or \<^verbatim>\<open>JOIN\<close> its alias,
  its short name and its name all lead to its name; a later entry replaces an earlier
  one.\<close>

definition cteAliasMapOf :: "string \<Rightarrow> string \<rightharpoonup> string" where
  "cteAliasMapOf body =
     fold (\<lambda>fjMatch cteAliasMap.
             let tblName = toUpperCase (grp_s fjMatch 1);
                 withAlias = (case grp fjMatch 2 of
                                None \<Rightarrow> cteAliasMap
                              | Some a \<Rightarrow> cteAliasMap(toUpperCase a \<mapsto> tblName))
             in (withAlias(shortNameOf tblName \<mapsto> tblName))(tblName \<mapsto> tblName))
       (exec_all True cteFromJoinRegex body) Map.empty"

text \<open>Whether the first table of the schema with this short name, or with this qualified
  name, has the column.\<close>

definition schemaTableHasColumn :: "DB2Table list \<Rightarrow> string \<Rightarrow> string \<Rightarrow> string \<Rightarrow> bool" where
  "schemaTableHasColumn allTables shortName fullName col =
     (case find_first (\<lambda>st. toUpperCase (t_name st) = shortName
                          \<or> qualifiedName st = Some fullName) allTables of
        None \<Rightarrow> False
      | Some st \<Rightarrow>
          (case t_columns st of
             None \<Rightarrow> False
           | Some cols \<Rightarrow> list_ex (\<lambda>c. toUpperCase (c_name c) = col) cols))"

text \<open>A column is found in a referenced expression when the expression declares it, or,
  when its body has \<^verbatim>\<open>SELECT *\<close>, a table of its \<^verbatim>\<open>FROM\<close> list has it, or else a
  table named by one of its \<^verbatim>\<open>x.*\<close> has it.\<close>

definition cteExposes ::
  "string \<Rightarrow> DB2Table list \<Rightarrow> string \<Rightarrow> ParsedCTEWithContext \<Rightarrow> bool" where
  "cteExposes t allTables potentialCol refCTE =
     (if cteHasColumn refCTE potentialCol then True
      else
        (let refCteBody = substring t (bodyStartOffset refCTE) (bodyEndOffset refCTE);
             hasSelectStar = test True selectStarPattern refCteBody;
             wildcardPatterns = map (\<lambda>wcMatch. toUpperCase (grp_s wcMatch 1))
                                  (exec_all False wildcardRegex refCteBody);
             cteAliasMap = cteAliasMapOf refCteBody
         in if hasSelectStar
            then list_ex (\<lambda>srcTbl.
                   schemaTableHasColumn allTables (shortNameOf srcTbl) srcTbl potentialCol)
                   (fromTables refCTE)
            else if length wildcardPatterns > 0
            then list_ex (\<lambda>wcPattern.
                   let resolvedTable = (case cteAliasMap wcPattern of
                                          None \<Rightarrow> wcPattern
                                        | Some x \<Rightarrow> if x = [] then wcPattern else x)
                   in schemaTableHasColumn allTables (shortNameOf resolvedTable) resolvedTable
                        potentialCol)
                   wildcardPatterns
            else False))"

subsection \<open>Unqualified columns inside the body of a common table expression\<close>

text \<open>\<^verbatim>\<open>/(?<![A-Za-z0-9_#@$])([A-Za-z_#@$][A-Za-z0-9_#@$]*)(?![A-Za-z0-9_#@$])/g\<close>,
  \<^verbatim>\<open>/^['0-9]/\<close>, \<^verbatim>\<open>/^\s*\(/\<close> and \<^verbatim>\<open>/^\s*\./\<close>\<close>

definition identifierPattern :: re where
  "identifierPattern = seqs [notIdentBehind, Group 1 ident, notIdentAhead]"

definition literalStartPattern :: re where
  "literalStartPattern = Seq Bos (Set [(quote, quote), (CHR ''0'', CHR ''9'')])"

definition callPattern :: re where
  "callPattern = seqs [Bos, Star ws, Lit ''('']"

definition dotAfterPattern :: re where
  "dotAfterPattern = seqs [Bos, Star ws, Lit ''.'']"

text \<open>The select list split at its top-level commas; every piece comes with its untrimmed
  text and the offset where it starts.\<close>

fun splitExprs ::
  "string \<Rightarrow> nat \<Rightarrow> nat \<Rightarrow> string \<Rightarrow> nat \<Rightarrow> int \<Rightarrow> bool \<Rightarrow> (string \<times> string \<times> nat) list" where
  "splitExprs [] si selectStartOffset currentExpr exprStartOffset parenDepth inStr =
     (if trim currentExpr \<noteq> [] then [(trim currentExpr, currentExpr, exprStartOffset)]
      else [])"
| "splitExprs (c # cs) si selectStartOffset currentExpr exprStartOffset parenDepth inStr =
     (if c = quote \<and> \<not> inStr
        then splitExprs cs (Suc si) selectStartOffset (currentExpr @ [c]) exprStartOffset
               parenDepth True
      else if c = quote \<and> inStr
        then splitExprs cs (Suc si) selectStartOffset (currentExpr @ [c]) exprStartOffset
               parenDepth False
      else if \<not> inStr then
        (if c = CHR ''(''
           then splitExprs cs (Suc si) selectStartOffset (currentExpr @ [c]) exprStartOffset
                  (parenDepth + 1) inStr
         else if c = CHR '')''
           then splitExprs cs (Suc si) selectStartOffset (currentExpr @ [c]) exprStartOffset
                  (parenDepth - 1) inStr
         else if c = CHR '','' \<and> parenDepth = 0
           then (trim currentExpr, currentExpr, exprStartOffset) #
                splitExprs cs (Suc si) selectStartOffset [] (selectStartOffset + si + 1)
                  parenDepth inStr
         else splitExprs cs (Suc si) selectStartOffset (currentExpr @ [c]) exprStartOffset
                parenDepth inStr)
      else splitExprs cs (Suc si) selectStartOffset (currentExpr @ [c]) exprStartOffset
             parenDepth inStr)"

text \<open>An identifier of an expression is a candidate column unless it is a keyword, is
  followed by \<^verbatim>\<open>(\<close>, comes right after a dot or is followed by a dot.\<close>

definition isCandidate :: "string \<Rightarrow> rmatch \<Rightarrow> bool" where
  "isCandidate exprToCheck idMatch =
     (let potentialCol = toUpperCase (grp_s idMatch 1);
          matchIndex = m_index idMatch;
          afterMatch = substring_from exprToCheck (matchIndex + length (grp_s idMatch 1))
      in if contains sqlKeywords potentialCol then False
         else if test False callPattern afterMatch then False
         else if matchIndex > 0 \<and> substring exprToCheck (matchIndex - 1) matchIndex = ''.''
           then False
         else if test False dotAfterPattern afterMatch then False
         else True)"

text \<open>The offset of an identifier of a piece of the select list.\<close>

definition identOffset :: "string \<times> string \<times> nat \<Rightarrow> nat \<Rightarrow> nat" where
  "identOffset colExpr matchIndex =
     (case colExpr of (expr, untrimmed, offset) \<Rightarrow>
        (let contentStart = indexOfPart untrimmed expr
         in (if contentStart > 0 then offset + contentStart else offset) + matchIndex))"

definition bodyColumnDiags ::
  "string \<Rightarrow> DB2Table list \<Rightarrow> ParsedCTEWithContext list \<Rightarrow> ParsedCTEWithContext \<Rightarrow>
   ParsedCTEWithContext list \<Rightarrow> string \<times> string \<times> nat \<Rightarrow> DB2SQLDiagnostic list" where
  "bodyColumnDiags t allTables parsedCTEs currentCTE referencedCTEsInBody ce =
     (let colExpr = stripCommentsAndStrings (fst ce);
          exprToCheck = (case match_first True asPattern colExpr of
                           None \<Rightarrow> colExpr
                         | Some asMatch \<Rightarrow> trim (grp_s asMatch 1))
      in if test False literalStartPattern exprToCheck \<or> exprToCheck = ''*'' then []
         else concat (map (\<lambda>idMatch.
           let potentialCol = toUpperCase (grp_s idMatch 1)
           in if \<not> isCandidate exprToCheck idMatch then []
              else
                (let foundInCTE = list_ex (cteExposes t allTables potentialCol)
                                    referencedCTEsInBody;
                     foundInTable = list_ex (\<lambda>ftName.
                        if list_ex (\<lambda>cte. cte_name cte = ftName) parsedCTEs then False
                        else (case find_first
                                     (\<lambda>tb. toUpperCase (t_name tb) = shortNameOf ftName)
                                     allTables of
                                None \<Rightarrow> False
                              | Some tb \<Rightarrow>
                                  (case t_columns tb of
                                     None \<Rightarrow> False
                                   | Some cols \<Rightarrow>
                                       list_ex (\<lambda>c. toUpperCase (c_name c) = potentialCol)
                                         cols)))
                        (fromTables currentCTE)
                 in if \<not> foundInCTE \<and> \<not> foundInTable
                    then [diag_at (getPositionFromOffset t (identOffset ce (m_index idMatch)))
                            (length potentialCol)
                            (''Unknown column '' @ dq @ grp_s idMatch 1 @ dq
                               @ ''. Available columns from CTEs: ''
                               @ join '', '' (map (\<lambda>c. join '', '' (map pc_name (cte_columns c)))
                                               referencedCTEsInBody))
                            Warning]
                    else []))
           (exec_all False identifierPattern exprToCheck)))"

definition bodyCheckOf ::
  "string \<Rightarrow> DB2Table list \<Rightarrow> ParsedCTEWithContext list \<Rightarrow> ParsedCTEWithContext \<Rightarrow>
   DB2SQLDiagnostic list" where
  "bodyCheckOf t allTables parsedCTEs currentCTE =
     (let cteBody = substring t (bodyStartOffset currentCTE) (bodyEndOffset currentCTE);
          referencedCTEsInBody =
            concat (map (\<lambda>fromTable.
                      case find_first (\<lambda>cte. cte_name cte = fromTable) parsedCTEs of
                        None \<Rightarrow> [] | Some cte \<Rightarrow> [cte])
                    (fromTables currentCTE))
      in if length referencedCTEsInBody > 0
         then (case match_first True selectFromPattern cteBody of
                 None \<Rightarrow> []
               | Some selectMatch \<Rightarrow>
                   (let selectClause = grp_s selectMatch 1;
                        selectKeywordPos = indexOfPart cteBody (m_text selectMatch);
                        selectStartOffset = bodyStartOffset currentCTE + selectKeywordPos
                          + (length (m_text selectMatch) - length selectClause)
                    in concat (map (bodyColumnDiags t allTables parsedCTEs currentCTE
                                      referencedCTEsInBody)
                         (splitExprs selectClause 0 selectStartOffset [] selectStartOffset 0
                            False))))
         else [])"

definition bodyColumnsCheck ::
  "string \<Rightarrow> DB2Table list \<Rightarrow> ParsedCTEWithContext list \<Rightarrow> DB2SQLDiagnostic list" where
  "bodyColumnsCheck t allTables parsedCTEs =
     concat (map (bodyCheckOf t allTables parsedCTEs) parsedCTEs)"

subsection \<open>Unqualified columns of the main query\<close>

text \<open>\<^verbatim>\<open>/FROM\s+([A-Za-z_#@$][A-Za-z0-9_#@$]*)/i\<close>,
  \<^verbatim>\<open>/^[A-Za-z_#@$][A-Za-z0-9_#@$]*\.\*$/\<close>, \<^verbatim>\<open>/\bAS\b/i\<close> and
  \<^verbatim>\<open>/^([\s\S]+?)\s+AS\s+[A-Za-z_#@$][A-Za-z0-9_#@$]*$/i\<close>\<close>

definition mainFromPattern :: re where
  "mainFromPattern = seqs [Lit ''FROM'', Plus ws, Group 1 ident]"

definition qualifiedStarPattern :: re where
  "qualifiedStarPattern = seqs [Bos, ident, Lit ''.'', Lit ''*'', Eos]"

definition asWordPattern :: re where
  "asWordPattern = seqs [WordB, Lit ''AS'', WordB]"

definition mainAsPattern :: re where
  "mainAsPattern =
     seqs [Bos, Group 1 (LazyPlus AnyChar), Plus ws, Lit ''AS'', Plus ws, ident, Eos]"

text \<open>The split of the main select list: the string state is updated first, then
  parentheses and commas are looked at outside strings; a piece of white space only is
  dropped at a comma too.\<close>

fun splitMainExprs ::
  "string \<Rightarrow> nat \<Rightarrow> nat \<Rightarrow> string \<Rightarrow> nat \<Rightarrow> int \<Rightarrow> bool \<Rightarrow> (string \<times> string \<times> nat) list" where
  "splitMainExprs [] msi mainSelectOffset mainCurrentExpr mainExprStart mainParenDepth mainInStr =
     (if trim mainCurrentExpr \<noteq> []
      then [(trim mainCurrentExpr, mainCurrentExpr, mainExprStart)] else [])"
| "splitMainExprs (mc # cs) msi mainSelectOffset mainCurrentExpr mainExprStart mainParenDepth
     mainInStr =
     (let inStr' = (if mc = quote \<and> \<not> mainInStr then True
                    else if mc = quote \<and> mainInStr then False else mainInStr)
      in if \<not> inStr' then
           (if mc = CHR ''(''
              then splitMainExprs cs (Suc msi) mainSelectOffset (mainCurrentExpr @ [mc])
                     mainExprStart (mainParenDepth + 1) inStr'
            else if mc = CHR '')''
              then splitMainExprs cs (Suc msi) mainSelectOffset (mainCurrentExpr @ [mc])
                     mainExprStart (mainParenDepth - 1) inStr'
            else if mc = CHR '','' \<and> mainParenDepth = 0
              then (if trim mainCurrentExpr \<noteq> []
                    then [(trim mainCurrentExpr, mainCurrentExpr, mainExprStart)] else []) @
                   splitMainExprs cs (Suc msi) mainSelectOffset []
                     (mainSelectOffset + msi + 1) mainParenDepth inStr'
            else splitMainExprs cs (Suc msi) mainSelectOffset (mainCurrentExpr @ [mc])
                   mainExprStart mainParenDepth inStr')
         else splitMainExprs cs (Suc msi) mainSelectOffset (mainCurrentExpr @ [mc])
                mainExprStart mainParenDepth inStr')"

definition mainColumnDiags ::
  "string \<Rightarrow> DB2Table list \<Rightarrow> ParsedCTEWithContext list \<Rightarrow> string \<times> string \<times> nat \<Rightarrow>
   DB2SQLDiagnostic list" where
  "mainColumnDiags t allTables mainReferencedCTEs ce =
     (let stripped = stripCommentsAndStrings (fst ce)
      in if trim stripped = ''*'' then []
         else if test False qualifiedStarPattern (trim stripped) then []
         else
           (let mainExprToCheck =
                  (if test True asWordPattern stripped
                   then replace_first True mainAsPattern (\<lambda>m. grp_s m 1) stripped
                   else stripped)
            in concat (map (\<lambda>mainIdMatch.
                 let mainPotentialCol = toUpperCase (grp_s mainIdMatch 1)
                 in if \<not> isCandidate mainExprToCheck mainIdMatch then []
                    else if \<not> list_ex (cteExposes t allTables mainPotentialCol)
                                 mainReferencedCTEs
                    then [diag_at
                            (getPositionFromOffset t (identOffset ce (m_index mainIdMatch)))
                            (length mainPotentialCol)
                            (''Unknown column '' @ dq @ grp_s mainIdMatch 1 @ dq
                               @ ''. Available columns from CTE '' @ dq
                               @ (case mainReferencedCTEs of [] \<Rightarrow> [] | c # _ \<Rightarrow> cte_name c)
                               @ dq @ '': ''
                               @ join '', ''
                                   (case mainReferencedCTEs of
                                      [] \<Rightarrow> [] | c # _ \<Rightarrow> map pc_name (cte_columns c)))
                            Warning]
                    else [])
               (exec_all False identifierPattern mainExprToCheck))))"

definition mainQueryCheck ::
  "string \<Rightarrow> DB2Table list \<Rightarrow> ParsedCTEWithContext list \<Rightarrow> DB2SQLDiagnostic list" where
  "mainQueryCheck t allTables parsedCTEs =
     (if length parsedCTEs > 0 then
        (let lastCTEEnd = lastCteEndOf parsedCTEs;
             mainQueryText = substring_from t lastCTEEnd
         in case match_first True selectFromPattern mainQueryText of
              None \<Rightarrow> []
            | Some mainSelectMatch \<Rightarrow>
                (let mainSelectClause = grp_s mainSelectMatch 1;
                     mainSelectOffset = lastCTEEnd
                       + indexOfPart mainQueryText (m_text mainSelectMatch)
                       + (length (m_text mainSelectMatch) - length mainSelectClause);
                     mainReferencedCTEs =
                       (case match_first True mainFromPattern mainQueryText of
                          None \<Rightarrow> []
                        | Some mainFromMatch \<Rightarrow>
                            (case find_first
                                    (\<lambda>cte. cte_name cte = toUpperCase (grp_s mainFromMatch 1))
                                    parsedCTEs of
                               None \<Rightarrow> [] | Some cte \<Rightarrow> [cte]))
                 in if length mainReferencedCTEs > 0
                    then concat (map (mainColumnDiags t allTables mainReferencedCTEs)
                           (splitMainExprs mainSelectClause 0 mainSelectOffset []
                              mainSelectOffset 0 False))
                    else []))
      else [])"

section \<open>The validator\<close>

definition schemaChecks :: "string \<Rightarrow> DB2SchemaConfig \<Rightarrow> DB2SQLDiagnostic list" where
  "schemaChecks t schemaConfig =
     (let parsedCTEs = parseCTEs t;
          allTables = getAllTablesForValidation schemaConfig
      in unknownTableCheck t allTables (cteNamesOf t) @
         columnRefCheck t allTables parsedCTEs @
         bodyColumnsCheck t allTables parsedCTEs @
         mainQueryCheck t allTables parsedCTEs)"

text \<open>\<^verbatim>\<open>validateDB2SQL(text, schemaConfig?)\<close>: the structural diagnostics, then, when a
  schema description is given, the diagnostics of the checks against it.\<close>

definition validateDB2SQL :: "string \<Rightarrow> DB2SchemaConfig option \<Rightarrow> DB2SQLDiagnostic list" where
  "validateDB2SQL t schemaConfig =
     structuralChecks t @
     (case schemaConfig of None \<Rightarrow> [] | Some cfg \<Rightarrow> schemaChecks t cfg)"

section \<open>The text model of the editor\<close>

text \<open>
  The completion code reads the document through the editor's text model, which keeps the
  document as lines. The three calls the source makes are modelled on the list of lines:
  \<^verbatim>\<open>getValue()\<close> joins the lines with line feeds, \<^verbatim>\<open>getLineContent(n)\<close> is line
  \<open>n\<close> (from 1), and \<^verbatim>\<open>getValueInRange\<close> from the start of the document to a position
  is the lines before the position's line and the part of that line before its column.
  The editor hands the provider a position inside the document.
\<close>

type_synonym text_model = "string list"

record position =
  lineNumber :: nat
  column :: nat

definition validPosition :: "text_model \<Rightarrow> position \<Rightarrow> bool" where
  "validPosition model p =
     (1 \<le> lineNumber p \<and> lineNumber p \<le> length model \<and> 1 \<le> column p
      \<and> column p \<le> length (model ! (lineNumber p - 1)) + 1)"

definition getValue :: "text_model \<Rightarrow> string" where
  "getValue model = join [newline] model"

definition getLineContent :: "text_model \<Rightarrow> nat \<Rightarrow> string" where
  "getLineContent model n = model ! (n - 1)"

definition lineBeforeCursor :: "text_model \<Rightarrow> position \<Rightarrow> string" where
  "lineBeforeCursor model p = substring (getLineContent model (lineNumber p)) 0 (column p - 1)"

definition getValueToPosition :: "text_model \<Rightarrow> position \<Rightarrow> string" where
  "getValueToPosition model p =
     join [newline] (take (lineNumber p - 1) model @ [lineBeforeCursor model p])"

section \<open>The completion context\<close>

datatype context_kind = TableContext | ColumnContext | SchemaContext | GeneralContext

text \<open>What \<^verbatim>\<open>getSQLContext\<close> returns; \<open>kind\<close> is the field \<^verbatim>\<open>context\<close> of the
  source.\<close>

record sql_context =
  kind :: context_kind
  tableAlias :: "string option"
  referencedTables :: "string list"
  aliasToTable :: "string \<rightharpoonup> string"

text \<open>\<^verbatim>\<open>/(?:FROM|JOIN)\s+([A-Za-z0-9_#@$]+(?:\.[A-Za-z0-9_#@$]+)?)(?:\s+(?:AS\s+)?([A-Za-z_#@$][A-Za-z0-9_#@$]*))?/gi\<close>,
  \<^verbatim>\<open>/([A-Za-z0-9_#@$]+)\.\s*$/\<close>, \<^verbatim>\<open>/(\S+)\s*$/\<close>, \<^verbatim>\<open>/\s+$/\<close>,
  \<^verbatim>\<open>/(?:FROM|JOIN|INTO|UPDATE|TABLE|TRUNCATE)\s*$/i\<close>,
  \<^verbatim>\<open>/(?:SELECT|WHERE|AND|OR|ON|SET|ORDER\s+BY|GROUP\s+BY|HAVING|,)\s*$/i\<close> and
  \<^verbatim>\<open>/\bSELECT\b/i\<close>, \<^verbatim>\<open>/\bFROM\b/i\<close>, \<^verbatim>\<open>/\bWHERE\b/i\<close>, \<^verbatim>\<open>/\bGROUP\b/i\<close>,
  \<^verbatim>\<open>/\bORDER\b/i\<close>\<close>

definition tableAliasRegex :: re where
  "tableAliasRegex =
     seqs [Alt (Lit ''FROM'') (Lit ''JOIN''), Plus ws, Group 1 tableRef,
           Opt (seqs [Plus ws, Opt (Seq (Lit ''AS'') (Plus ws)), Group 2 ident])]"

definition dotPattern :: re where
  "dotPattern = seqs [Group 1 (Plus identChar), Lit ''.'', Star ws, Eos]"

definition wordPattern :: re where
  "wordPattern = seqs [Group 1 (Plus (NSet ws_ranges)), Star ws, Eos]"

definition trailingSpace :: re where
  "trailingSpace = Seq (Plus ws) Eos"

definition tableKeywords :: re where
  "tableKeywords =
     seqs [alts [Lit ''FROM'', Lit ''JOIN'', Lit ''INTO'', Lit ''UPDATE'', Lit ''TABLE'',
                 Lit ''TRUNCATE''], Star ws, Eos]"

definition columnKeywords :: re where
  "columnKeywords =
     seqs [alts [Lit ''SELECT'', Lit ''WHERE'', Lit ''AND'', Lit ''OR'', Lit ''ON'', Lit ''SET'',
                 seqs [Lit ''ORDER'', Plus ws, Lit ''BY''],
                 seqs [Lit ''GROUP'', Plus ws, Lit ''BY''], Lit ''HAVING'', Lit '',''],
           Star ws, Eos]"

definition wordOf :: "string \<Rightarrow> re" where
  "wordOf w = seqs [WordB, Lit w, WordB]"

text \<open>\<^verbatim>\<open>s.lastIndexOf(';')\<close>, with \<open>None\<close> for \<^verbatim>\<open>-1\<close>.\<close>

fun lastIndexFrom :: "char \<Rightarrow> nat \<Rightarrow> string \<Rightarrow> nat option" where
  "lastIndexFrom x i [] = None"
| "lastIndexFrom x i (c # cs) =
     (case lastIndexFrom x (Suc i) cs of
        Some k \<Rightarrow> Some k
      | None \<Rightarrow> if c = x then Some i else None)"

definition lastIndexOf :: "string \<Rightarrow> char \<Rightarrow> nat option" where
  "lastIndexOf t x = lastIndexFrom x 0 t"

text \<open>The tables and aliases of the statement around the cursor.\<close>

definition referencesOf :: "string \<Rightarrow> string list \<times> (string \<rightharpoonup> string)" where
  "referencesOf fullStatement =
     fold (\<lambda>match (referencedTables, aliasToTable).
             let tableName = toUpperCase (grp_s match 1);
                 withAlias = (case grp match 2 of
                                None \<Rightarrow> aliasToTable
                              | Some a \<Rightarrow> aliasToTable(toUpperCase a \<mapsto> tableName));
                 shortName = shortNameOf tableName
             in (referencedTables @ [tableName],
                 if \<not> truthy (withAlias shortName) then withAlias(shortName \<mapsto> tableName)
                 else withAlias))
       (exec_all True tableAliasRegex fullStatement) ([], Map.empty)"

definition getSQLContext :: "text_model \<Rightarrow> position \<Rightarrow> sql_context" where
  "getSQLContext model p =
     (let fullText = getValue model;
          textUntilPosition = getValueToPosition model p;
          lastSemicolon = lastIndexOf textUntilPosition (CHR '';'');
          statementStart = (case lastSemicolon of None \<Rightarrow> 0 | Some k \<Rightarrow> k + 1);
          textAfterStart = substring_from fullText statementStart;
          fullStatement = (case indexOf textAfterStart '';'' of
                             None \<Rightarrow> textAfterStart
                           | Some nextSemicolon \<Rightarrow> substring textAfterStart 0 nextSemicolon);
          currentStatement = (case lastSemicolon of
                                None \<Rightarrow> textUntilPosition
                              | Some k \<Rightarrow> substring_from textUntilPosition (k + 1));
          refs = referencesOf fullStatement;
          textBeforeCursor = lineBeforeCursor model p
      in case match_first False dotPattern textBeforeCursor of
           Some dotMatch \<Rightarrow>
             \<lparr>kind = ColumnContext, tableAlias = Some (toUpperCase (grp_s dotMatch 1)),
              referencedTables = fst refs, aliasToTable = snd refs\<rparr>
         | None \<Rightarrow>
             (let textBeforeWord =
                    (case match_first False wordPattern textBeforeCursor of
                       None \<Rightarrow> textBeforeCursor
                     | Some wordMatch \<Rightarrow>
                         substring textBeforeCursor 0
                           (length textBeforeCursor - length (m_text wordMatch)));
                  trimmedBeforeWord = replace_first False trailingSpace (\<lambda>m. []) textBeforeWord;
                  trimmedStatement = replace_first False trailingSpace (\<lambda>m. []) currentStatement;
                  hasSelectBefore = test True (wordOf ''SELECT'') currentStatement;
                  hasFromBefore = test True (wordOf ''FROM'') currentStatement;
                  hasWhereBefore = test True (wordOf ''WHERE'') currentStatement;
                  hasGroupBefore = test True (wordOf ''GROUP'') currentStatement;
                  hasOrderBefore = test True (wordOf ''ORDER'') currentStatement;
                  result = (\<lambda>k. \<lparr>kind = k, tableAlias = None, referencedTables = fst refs,
                                  aliasToTable = snd refs\<rparr>)
              in if test True tableKeywords (trimmedStatement @ '' '')
                    \<or> test True tableKeywords (trimmedBeforeWord @ '' '')
                 then result TableContext
                 else if test True columnKeywords (trimmedStatement @ '' '')
                    \<or> test True columnKeywords (trimmedBeforeWord @ '' '')
                 then result ColumnContext
                 else if hasSelectBefore \<and> \<not> hasFromBefore then result ColumnContext
                 else if hasFromBefore \<and> \<not> hasWhereBefore \<and> \<not> hasGroupBefore
                         \<and> \<not> hasOrderBefore
                         \<and> \<not> test True tableKeywords (trimmedBeforeWord @ '' '')
                 then result ColumnContext
                 else result GeneralContext))"

section \<open>The completion provider: no suggestions inside a comment\<close>

text \<open>The provider looks for the first \<^verbatim>\<open>--\<close> of the cursor's line before the cursor and
  counts the quotes before it; then it scans the document up to the cursor for block
  comments, one character ahead, so the last character before the cursor is never the
  first of a pair.\<close>

definition quotesOpen :: "string \<Rightarrow> bool" where
  "quotesOpen t = fold (\<lambda>c inString. if c = quote then \<not> inString else inString) t False"

definition inLineComment :: "string \<Rightarrow> bool" where
  "inLineComment textBeforeCursor =
     (case indexOf textBeforeCursor ''--'' of
        None \<Rightarrow> False
      | Some lineCommentIndex \<Rightarrow> \<not> quotesOpen (take lineCommentIndex textBeforeCursor))"

fun blockCommentScan :: "string \<Rightarrow> int \<Rightarrow> bool \<Rightarrow> int" where
  "blockCommentScan (ch # nx # cs) blockCommentDepth inStr =
     (if ch = quote \<and> \<not> inStr then blockCommentScan (nx # cs) blockCommentDepth True
      else if ch = quote \<and> inStr then blockCommentScan (nx # cs) blockCommentDepth False
      else if \<not> inStr then
        (if ch = CHR ''/'' \<and> nx = CHR ''*''
           then blockCommentScan cs (blockCommentDepth + 1) inStr
         else if ch = CHR ''*'' \<and> nx = CHR ''/''
           then blockCommentScan cs (blockCommentDepth - 1) inStr
         else blockCommentScan (nx # cs) blockCommentDepth inStr)
      else blockCommentScan (nx # cs) blockCommentDepth inStr)"
| "blockCommentScan cs blockCommentDepth inStr = blockCommentDepth"

text \<open>\<open>suggest\<close> stands for the rest of \<^verbatim>\<open>provideCompletionItems\<close>, which builds the
  suggestions from the schema and from the catalogs of \<^verbatim>\<open>db2sql.keywords\<close>.\<close>

definition provideCompletionItems ::
  "(text_model \<Rightarrow> position \<Rightarrow> 'a list) \<Rightarrow> text_model \<Rightarrow> position \<Rightarrow> 'a list" where
  "provideCompletionItems suggest model p =
     (if inLineComment (lineBeforeCursor model p) then []
      else if blockCommentScan (getValueToPosition model p) 0 False > 0 then []
      else suggest model p)"

section \<open>Notions used in the properties\<close>

text \<open>A finding about the schema is a diagnostic whose message starts with
  \<^verbatim>\<open>Unknown table\<close> or \<^verbatim>\<open>Unknown column\<close>.\<close>

definition unknownFinding :: "DB2SQLDiagnostic \<Rightarrow> bool" where
  "unknownFinding d =
     (if is_prefix ''Unknown table'' (message d) then True
      else is_prefix ''Unknown column'' (message d))"

definition structuralDiag :: "DB2SQLDiagnostic \<Rightarrow> bool" where
  "structuralDiag d = (severity d = Error \<and> \<not> unknownFinding d)"

definition schemaDiag :: "DB2SQLDiagnostic \<Rightarrow> bool" where
  "schemaDiag d = (severity d = Warning \<and> unknownFinding d)"

text \<open>A state reached from another: it is further on in the same text.\<close>

definition reaches :: "mst \<Rightarrow> mst \<Rightarrow> bool" where
  "reaches s s' =
     (\<exists>u. st_rest s = u @ st_rest s' \<and> st_pos s' = st_pos s + length u)"

text \<open>The state in which a search that began at index \<open>i\<close>, after the character \<open>p\<close>,
  tries the position \<open>k\<close> characters further on.\<close>

definition state_at :: "nat \<Rightarrow> char option \<Rightarrow> string \<Rightarrow> nat \<Rightarrow> mst" where
  "state_at i p suf k =
     MSt (i + k) (if k = 0 then p else Some (suf ! (k - 1))) (drop k suf) []"

text \<open>The text holds the keyword \<^verbatim>\<open>WITH\<close>: the four letters in any case, not right
  after a letter, a digit or an underscore, and with a white-space character after
  them.\<close>

definition hasWithKeyword :: "string \<Rightarrow> bool" where
  "hasWithKeyword t =
     (\<exists>u w v. t = u @ w @ v \<and> toUpperCase w = ''WITH''
        \<and> (u = [] \<or> \<not> is_word (last u)) \<and> v \<noteq> [] \<and> is_space (hd v))"

text \<open>A character of the result of a masking step is the character of the input or a
  space.\<close>

definition masked :: "string \<Rightarrow> string \<Rightarrow> bool" where
  "masked t t' = list_all2 (\<lambda>c d. d = c \<or> d = CHR '' '') t t'"

text \<open>The state \<open>k\<close> characters further on in the text.\<close>

definition advance :: "nat \<Rightarrow> mst \<Rightarrow> mst" where
  "advance k s =
     MSt (st_pos s + k) (if k = 0 then st_prev s else Some (st_rest s ! (k - 1)))
       (drop k (st_rest s)) (st_groups s)"

section \<open>Example inputs\<close>

text \<open>The schema \<^verbatim>\<open>{tables: [{name: "EMPLOYEES", columns: [{name: "EMP_ID"}, {name: "NAME"}]}]}\<close>.\<close>

definition plainColumn :: "string \<Rightarrow> DB2Column" where
  "plainColumn n =
     \<lparr>c_name = n, c_dataType = None, c_description = None, c_nullable = None,
      c_isPrimaryKey = None\<rparr>"

definition employeesSchema :: DB2SchemaConfig where
  "employeesSchema =
     \<lparr>cfg_schemas = None,
      cfg_tables = Some [\<lparr>t_name = ''EMPLOYEES'', t_schema = None, t_description = None,
                          t_columns = Some [plainColumn ''EMP_ID'', plainColumn ''NAME''],
                          t_type = None\<rparr>],
      cfg_defaultSchema = None, cfg_showSchemaPrefix = None\<rparr>"

text \<open>\<^verbatim>\<open>SELECT 'a''b' FROM t\<close>\<close>

definition doubledQuoteText :: string where
  "doubledQuoteText = ''SELECT '' @ [quote] @ ''a'' @ [quote, quote] @ ''b'' @ [quote] @ '' FROM t''"

text \<open>A string literal that holds a line feed, then an open parenthesis: the two lines
  \<^verbatim>\<open>SELECT '\<close> and \<^verbatim>\<open>' FROM (T\<close>.\<close>

definition twoLineStringText :: string where
  "twoLineStringText = ''SELECT '' @ [quote] @ [newline] @ [quote] @ '' FROM (T''"

text \<open>The line \<^verbatim>\<open>SELECT '--' -- x\<close> with the cursor at its end.\<close>

definition quotedDashesLine :: string where
  "quotedDashesLine = ''SELECT '' @ [quote] @ ''--'' @ [quote] @ '' -- x''"

section \<open>Auxiliary facts\<close>

subsection \<open>Matches lie inside the text\<close>

lemma reaches_refl: "reaches s s"
  by (simp add: reaches_def)

lemma reaches_trans: "reaches s s1 \<Longrightarrow> reaches s1 s2 \<Longrightarrow> reaches s s2"
  by (auto simp: reaches_def)

lemma reaches_same_text:
  "st_pos s' = st_pos s \<Longrightarrow> st_rest s' = st_rest s \<Longrightarrow> reaches s s'"
  by (simp add: reaches_def)

lemma lit_match_reaches: "s' \<in> set (lit_match ci w s) \<Longrightarrow> reaches s s'"
proof (induction ci w s rule: lit_match.induct)
  case (1 ci s)
  then show ?case by (simp add: reaches_refl)
next
  case (2 ci a w i p g)
  then show ?case by simp
next
  case (3 ci a w i p c cs g)
  then have "chr_eq ci a c" and "s' \<in> set (lit_match ci w (MSt (Suc i) (Some c) cs g))"
    by (auto split: if_splits)
  then have "reaches (MSt (Suc i) (Some c) cs g) s'"
    using 3 by simp
  moreover have "reaches (MSt i p (c # cs) g) (MSt (Suc i) (Some c) cs g)"
    by (simp add: reaches_def)
  ultimately show ?case by (rule reaches_trans [rotated])
qed

lemma step_if_reaches: "s' \<in> set (step_if f s) \<Longrightarrow> reaches s s'"
  by (cases s; cases "st_rest s") (auto simp: reaches_def split: if_splits)

lemma ms_reaches: "s' \<in> set (ms ci r s) \<Longrightarrow> reaches s s'"
proof (induction ci r s arbitrary: s' rule: ms.induct)
  case (1 ci w s)
  then show ?case by (simp add: lit_match_reaches)
next
  case (2 ci rs s)
  then show ?case by (simp add: step_if_reaches)
next
  case (3 ci rs s)
  then show ?case by (simp add: step_if_reaches)
next
  case (4 ci r1 r2 s)
  then obtain s1 where "s1 \<in> set (ms ci r1 s)" "s' \<in> set (ms ci r2 s1)"
    by auto
  then show ?case using 4 reaches_trans by blast
next
  case (5 ci r1 r2 s)
  then show ?case by auto
next
  case (6 ci r s)
  from "6.prems" consider "s' = s"
    | s1 where "s1 \<in> set (ms ci r s)" "progress s s1" "s' \<in> set (ms ci (Star r) s1)"
    by (subst (asm) ms.simps) (auto split: if_splits)
  then show ?case
  proof cases
    case 1
    then show ?thesis by (simp add: reaches_refl)
  next
    case 2
    then show ?thesis using 6 reaches_trans by blast
  qed
next
  case (7 ci r s)
  from "7.prems" consider "s' = s"
    | s1 where "s1 \<in> set (ms ci r s)" "progress s s1" "s' \<in> set (ms ci (LazyStar r) s1)"
    by (subst (asm) ms.simps) (auto split: if_splits)
  then show ?case
  proof cases
    case 1
    then show ?thesis by (simp add: reaches_refl)
  next
    case 2
    then show ?thesis using 7 reaches_trans by blast
  qed
next
  case (8 ci r s)
  then show ?case by (auto simp: reaches_refl)
next
  case (9 ci n r s)
  then obtain s1 where "s1 \<in> set (ms ci r s)"
    "s' = MSt (st_pos s1) (st_prev s1) (st_rest s1) ((n, st_pos s, st_pos s1) # st_groups s1)"
    by auto
  then show ?case using 9 by (auto simp: reaches_def)
next
  case (10 ci r s)
  then show ?case by (auto simp: reaches_def split: list.splits)
next
  case (11 ci r s)
  then show ?case by (auto simp: reaches_refl split: list.splits)
next
  case (12 ci rs s)
  then show ?case by (auto simp: reaches_refl split: option.splits if_splits)
next
  case (13 ci s)
  then show ?case by (auto simp: reaches_refl split: if_splits)
next
  case (14 ci s)
  then show ?case by (auto simp: reaches_refl split: if_splits)
next
  case (15 ci s)
  then show ?case by (auto simp: reaches_refl split: if_splits)
qed

text \<open>Where a search finds its match.\<close>

lemma search_Some:
  "search ci r i p suf = Some (s0, s1) \<Longrightarrow>
   \<exists>k \<le> length suf. st_pos s0 = i + k \<and> st_rest s0 = drop k suf \<and> s1 \<in> set (ms ci r s0)"
proof (induction ci r i p suf rule: search.induct)
  case (1 ci r i p)
  then show ?case by (auto split: list.splits)
next
  case (2 ci r i p c cs)
  show ?case
  proof (cases "ms ci r (MSt i p (c # cs) [])")
    case Nil
    then have "search ci r (Suc i) (Some c) cs = Some (s0, s1)"
      using 2 by simp
    then obtain k where "k \<le> length cs" "st_pos s0 = Suc i + k" "st_rest s0 = drop k cs"
      "s1 \<in> set (ms ci r s0)"
      using 2 Nil by blast
    then show ?thesis by (intro exI [of _ "Suc k"]) simp
  next
    case (Cons a list)
    then show ?thesis using 2 by (intro exI [of _ 0]) auto
  qed
qed

lemma match_length:
  assumes "search ci r i p suf = Some (s0, s1)"
  shows "length (m_text (to_match t (s0, s1))) + length (st_rest s1) = length (st_rest s0)"
proof -
  have "reaches s0 s1"
    using search_Some [OF assms] ms_reaches by blast
  then show ?thesis
    by (auto simp: reaches_def to_match_def)
qed

lemma length_replace_from:
  "(\<And>m. length (f m) = length (m_text m)) \<Longrightarrow>
   length (replace_from ci r f t i p suf) = length suf"
proof (induction ci r f t i p suf rule: replace_from.induct)
  case (1 ci r f t i p suf)
  note f = "1.prems"
  show ?case
  proof (cases "search ci r i p suf")
    case None
    then show ?thesis by (subst replace_from.simps) simp
  next
    case (Some a)
    obtain s0 s1 where a: "a = (s0, s1)" by (cases a)
    have found: "search ci r i p suf = Some (s0, s1)"
      using Some a by simp
    obtain k where k: "k \<le> length suf" "st_pos s0 = i + k" "st_rest s0 = drop k suf"
      using search_Some [OF found] by blast
    have m: "length (f (to_match t (s0, s1))) + length (st_rest s1) = length suf - k"
      using match_length [OF found, of t] k f by simp
    define tl where "tl =
        (if shorter (st_rest s1) (st_rest s0)
         then (if shorter (st_rest s1) suf
               then replace_from ci r f t (st_pos s1) (st_prev s1) (st_rest s1)
               else st_rest s1)
         else (case st_rest s1 of
                 [] \<Rightarrow> []
               | c # cs \<Rightarrow>
                   c # (if shorter cs suf
                        then replace_from ci r f t (Suc (st_pos s1)) (Some c) cs else cs)))"
    have tail: "length tl = length (st_rest s1)"
    proof (cases "shorter (st_rest s1) (st_rest s0)")
      case True
      then show ?thesis
        using "1.IH" (1) [of "(s0, s1)" s0 s1, OF found refl] f by (simp add: tl_def)
    next
      case False
      show ?thesis
      proof (cases "st_rest s1")
        case Nil
        then show ?thesis using False by (simp add: tl_def)
      next
        case (Cons c cs)
        then show ?thesis
          using False "1.IH" (2) [of "(s0, s1)" s0 s1 c cs, OF found refl] f
          by (simp add: tl_def)
      qed
    qed
    have "replace_from ci r f t i p suf =
            take (st_pos s0 - i) suf @ f (to_match t (s0, s1)) @ tl"
      by (subst replace_from.simps) (simp add: found tl_def)
    then show ?thesis
      using k m tail by simp
  qed
qed

lemma length_replace_all:
  "(\<And>m. length (f m) = length (m_text m)) \<Longrightarrow> length (replace_all ci r f t) = length t"
  by (simp add: replace_all_def length_replace_from)

lemma length_blankOut: "length (blankOut m) = length (m_text m)"
  by (simp add: blankOut_def spaces_def)

lemma length_blankOutKeepLines: "length (blankOutKeepLines m) = length (m_text m)"
  by (simp add: blankOutKeepLines_def)

subsection \<open>Where a search finds its match\<close>

lemma state_at_0: "state_at i p suf 0 = MSt i p suf []"
  by (simp add: state_at_def)

lemma state_at_Suc: "state_at i p (c # cs) (Suc k) = state_at (Suc i) (Some c) cs k"
  by (cases k) (simp_all add: state_at_def)

lemma search_None_iff:
  "search ci r i p suf = None \<longleftrightarrow> (\<forall>k \<le> length suf. ms ci r (state_at i p suf k) = [])"
proof (induction ci r i p suf rule: search.induct)
  case (1 ci r i p)
  then show ?case by (auto simp: state_at_0 split: list.splits)
next
  case (2 ci r i p c cs)
  show ?case
  proof (cases "ms ci r (MSt i p (c # cs) [])")
    case Nil
    have "(\<forall>k \<le> length (c # cs). ms ci r (state_at i p (c # cs) k) = []) \<longleftrightarrow>
          (\<forall>k \<le> length cs. ms ci r (state_at (Suc i) (Some c) cs k) = [])"
    proof
      assume a: "\<forall>k \<le> length (c # cs). ms ci r (state_at i p (c # cs) k) = []"
      show "\<forall>k \<le> length cs. ms ci r (state_at (Suc i) (Some c) cs k) = []"
      proof (intro allI impI)
        fix k assume "k \<le> length cs"
        then have "ms ci r (state_at i p (c # cs) (Suc k)) = []" using a by simp
        then show "ms ci r (state_at (Suc i) (Some c) cs k) = []"
          by (simp add: state_at_Suc)
      qed
    next
      assume a: "\<forall>k \<le> length cs. ms ci r (state_at (Suc i) (Some c) cs k) = []"
      show "\<forall>k \<le> length (c # cs). ms ci r (state_at i p (c # cs) k) = []"
      proof (intro allI impI)
        fix k assume k: "k \<le> length (c # cs)"
        show "ms ci r (state_at i p (c # cs) k) = []"
        proof (cases k)
          case 0
          then show ?thesis using Nil by (simp add: state_at_0)
        next
          case (Suc j)
          then show ?thesis using a k by (simp add: state_at_Suc)
        qed
      qed
    qed
    then show ?thesis using 2 Nil by simp
  next
    case (Cons a list)
    then have "ms ci r (state_at i p (c # cs) 0) \<noteq> []"
      by (simp add: state_at_0)
    then show ?thesis using Cons by auto
  qed
qed

lemma search_first:
  "k \<le> length suf \<Longrightarrow> ms ci r (state_at i p suf k) \<noteq> [] \<Longrightarrow>
   (\<forall>j < k. ms ci r (state_at i p suf j) = []) \<Longrightarrow>
   search ci r i p suf = Some (state_at i p suf k, hd (ms ci r (state_at i p suf k)))"
proof (induction ci r i p suf arbitrary: k rule: search.induct)
  case (1 ci r i p)
  then show ?case by (auto simp: state_at_0 split: list.splits)
next
  case (2 ci r i p c cs)
  show ?case
  proof (cases k)
    case 0
    then show ?thesis using 2 by (auto simp: state_at_0 split: list.splits)
  next
    case (Suc j)
    then have nil: "ms ci r (MSt i p (c # cs) []) = []"
      using "2.prems" (3) by (auto simp: state_at_0 dest: spec [of _ 0])
    have "\<forall>j' < j. ms ci r (state_at (Suc i) (Some c) cs j') = []"
    proof (intro allI impI)
      fix j' assume "j' < j"
      then have "ms ci r (state_at i p (c # cs) (Suc j')) = []"
        using "2.prems" (3) Suc by simp
      then show "ms ci r (state_at (Suc i) (Some c) cs j') = []"
        by (simp add: state_at_Suc)
    qed
    then have "search ci r (Suc i) (Some c) cs =
        Some (state_at (Suc i) (Some c) cs j, hd (ms ci r (state_at (Suc i) (Some c) cs j)))"
      using "2.IH" [OF nil, of j] "2.prems" Suc by (simp add: state_at_Suc)
    then show ?thesis using nil Suc by (simp add: state_at_Suc)
  qed
qed

lemma search_Some_at:
  assumes "search ci r i p suf = Some (s0, s1)"
  shows "\<exists>k \<le> length suf. s0 = state_at i p suf k \<and> ms ci r s0 \<noteq> []
           \<and> s1 = hd (ms ci r s0) \<and> (\<forall>j < k. ms ci r (state_at i p suf j) = [])"
proof -
  have "\<exists>k \<le> length suf. ms ci r (state_at i p suf k) \<noteq> []"
    using assms search_None_iff [of ci r i p suf] by auto
  then obtain k where k: "k \<le> length suf" "ms ci r (state_at i p suf k) \<noteq> []"
    "\<forall>j < k. ms ci r (state_at i p suf j) = []"
    using exists_least_iff [of "\<lambda>k. k \<le> length suf \<and> ms ci r (state_at i p suf k) \<noteq> []"]
    by (metis (mono_tags, lifting) dual_order.strict_trans2 nat_less_le)
  then show ?thesis
    using search_first [OF k] assms by auto
qed


subsection \<open>Characters\<close>

lemma is_lower_word: "is_lower c \<Longrightarrow> is_word c"
  by (simp add: is_lower_def is_word_def word_ranges_def split: if_splits)

lemma is_upper_word: "is_upper c \<Longrightarrow> is_word c"
  by (simp add: is_upper_def is_word_def word_ranges_def split: if_splits)

lemma lower_bits: "is_lower (Char b0 b1 b2 b3 b4 b5 b6 b7) \<Longrightarrow> b5 \<and> b6 \<and> \<not> b7"
  by (auto simp: is_lower_def char_le_def split: if_splits)

lemma upper_bits: "is_upper (Char b0 b1 b2 b3 b4 b5 b6 b7) \<Longrightarrow> \<not> b5 \<and> b6 \<and> \<not> b7"
  by (auto simp: is_upper_def char_le_def split: if_splits)

lemma not_space_bit6: "\<not> is_space (Char b0 b1 b2 b3 b4 b5 True b7)"
  by (auto simp: is_space_def ws_ranges_def char_le_def split: if_splits)

lemma space_class: "cls_match ci ws_ranges c = is_space c"
proof (cases c)
  case (Char b0 b1 b2 b3 b4 b5 b6 b7)
  show ?thesis
  proof (cases "in_ranges ws_ranges c")
    case True
    then show ?thesis by (simp add: cls_match_def is_space_def)
  next
    case False
    have "is_lower c \<Longrightarrow> \<not> in_ranges ws_ranges (clear_bit5 c)"
      using lower_bits [of b0 b1 b2 b3 b4 b5 b6 b7] not_space_bit6 [of b0 b1 b2 b3 b4 False b7]
      by (auto simp: Char is_space_def)
    moreover have "is_upper c \<Longrightarrow> \<not> in_ranges ws_ranges (set_bit5 c)"
      using upper_bits [of b0 b1 b2 b3 b4 b5 b6 b7] not_space_bit6 [of b0 b1 b2 b3 b4 True b7]
      by (auto simp: Char is_space_def)
    ultimately show ?thesis
      using False by (auto simp: cls_match_def is_space_def)
  qed
qed

subsection \<open>Literals and classes\<close>

lemma lit_match_eq:
  "lit_match ci w (MSt i p cs g) =
     (if length w \<le> length cs \<and> list_all2 (chr_eq ci) w (take (length w) cs)
      then [MSt (i + length w) (if w = [] then p else Some (cs ! (length w - 1)))
              (drop (length w) cs) g]
      else [])"
proof (induction w arbitrary: i p cs)
  case Nil
  then show ?case by simp
next
  case (Cons a w)
  show ?case
  proof (cases cs)
    case Nil
    then show ?thesis by simp
  next
    case (Cons c cs')
    then show ?thesis
      using Cons.IH [of "Suc i" "Some c" cs'] by (cases w) auto
  qed
qed

lemma step_if_eq:
  "step_if f (MSt i p cs g) =
     (case cs of [] \<Rightarrow> [] | c # cs' \<Rightarrow> if f c then [MSt (Suc i) (Some c) cs' g] else [])"
  by (cases cs) simp_all

lemma upper_WITH:
  assumes "list_all2 (chr_eq True) ''WITH'' w"
  shows "toUpperCase w = ''WITH'' \<and> w \<noteq> [] \<and> is_word (hd w)"
proof -
  obtain a b c d where w: "w = [a, b, c, d]"
    using assms by (auto simp: list_all2_Cons1)
  have up: "up_char a = CHR ''W''" "up_char b = CHR ''I''" "up_char c = CHR ''T''"
    "up_char d = CHR ''H''"
    using assms
    by (simp_all add: w chr_eq_def up_char_def is_lower_def char_le_def)
  have "is_word a"
  proof (cases "is_lower a")
    case True
    then show ?thesis by (rule is_lower_word)
  next
    case False
    then have "a = CHR ''W''" using up by (simp add: up_char_def)
    then show ?thesis by (simp add: is_word_def word_ranges_def char_le_def)
  qed
  then show ?thesis using up by (simp add: w toUpperCase_def)
qed

lemma withPattern_match:
  assumes "ms True withPattern (MSt i p cs g) \<noteq> []"
  shows "(case p of None \<Rightarrow> True | Some c \<Rightarrow> \<not> is_word c)
         \<and> (\<exists>w c v. cs = w @ c # v \<and> toUpperCase w = ''WITH'' \<and> is_space c)"
proof -
  let ?s = "MSt i p cs g"
  have b: "at_word_boundary ?s"
    using assms by (auto simp: withPattern_def split: if_splits)
  then have lit: "concat (map (ms True (Plus ws)) (lit_match True ''WITH'' ?s)) \<noteq> []"
    using assms by (simp add: withPattern_def)
  then have all2: "list_all2 (chr_eq True) ''WITH'' (take 4 cs)" and len: "4 \<le> length cs"
    by (auto simp: lit_match_eq eval_nat_numeral split: if_splits)
  define w where "w = take 4 cs"
  have w: "toUpperCase w = ''WITH''" "w \<noteq> []" "is_word (hd w)"
    using upper_WITH [of w] all2 by (simp_all add: w_def)
  have cs: "cs = w @ drop 4 cs"
    by (simp add: w_def)
  have "ms True (Plus ws) (MSt (i + 4) (Some (cs ! 3)) (drop 4 cs) g) \<noteq> []"
    using lit all2 len by (simp add: lit_match_eq eval_nat_numeral)
  then have "step_if (cls_match True ws_ranges) (MSt (i + 4) (Some (cs ! 3)) (drop 4 cs) g) \<noteq> []"
    by (auto simp: Plus_def ws_def)
  then obtain c v where v: "drop 4 cs = c # v" "is_space c"
    by (auto simp: step_if_eq space_class split: list.splits if_splits)
  have "hd cs = hd w"
    using cs w(2) by (metis hd_append2)
  then have "is_word (hd cs)" "cs \<noteq> []"
    using w len by auto
  then have "case p of None \<Rightarrow> True | Some c \<Rightarrow> \<not> is_word c"
    using b by (cases cs; cases p) (auto simp: at_word_boundary_def)
  moreover have "cs = w @ c # v"
    using cs v by simp
  ultimately show ?thesis using w v by blast
qed

lemma no_with_no_match:
  assumes "\<not> hasWithKeyword t"
  shows "\<not> test True withPattern t"
proof
  assume "test True withPattern t"
  then obtain s0 s1 where "search True withPattern 0 None t = Some (s0, s1)"
    by (auto simp: test_def)
  then obtain k where k: "k \<le> length t" "ms True withPattern (state_at 0 None t k) \<noteq> []"
    using search_Some_at by blast
  then obtain w c v where m: "drop k t = w @ c # v" "toUpperCase w = ''WITH''" "is_space c"
    and p: "k \<noteq> 0 \<Longrightarrow> \<not> is_word (t ! (k - 1))"
    using withPattern_match [of k "if k = 0 then None else Some (t ! (k - 1))" "drop k t" "[]"]
    by (auto simp: state_at_def split: if_splits)
  have "t = take k t @ w @ (c # v)"
    using m(1) by (metis append_take_drop_id)
  moreover have "take k t = [] \<or> \<not> is_word (last (take k t))"
  proof (cases "k = 0")
    case True
    then show ?thesis by simp
  next
    case False
    then have "last (take k t) = t ! (k - 1)"
      using k(1) by (cases k) (simp_all add: take_Suc_conv_app_nth)
    then show ?thesis using p False by simp
  qed
  ultimately have "hasWithKeyword t"
    unfolding hasWithKeyword_def using m by (metis list.distinct(1) list.sel(1))
  then show False using assms by simp
qed

lemma hasWithKeyword_letter: "hasWithKeyword t \<Longrightarrow> \<exists>a \<in> set t. up_char a = CHR ''W''"
  by (auto simp: hasWithKeyword_def toUpperCase_def)

subsection \<open>Masking steps\<close>

lemma masked_refl: "masked t t"
  by (simp add: masked_def list_all2_refl)

lemma masked_append: "masked a a' \<Longrightarrow> masked b b' \<Longrightarrow> masked (a @ b) (a' @ b')"
  by (simp add: masked_def list_all2_appendI)

lemma masked_length: "masked t t' \<Longrightarrow> length t' = length t"
  by (simp add: masked_def list_all2_lengthD)

lemma masked_nth: "masked t t' \<Longrightarrow> i < length t \<Longrightarrow> t' ! i = t ! i \<or> t' ! i = CHR '' ''"
  by (auto simp: masked_def list_all2_conv_all_nth)

lemma masked_trans: "masked a b \<Longrightarrow> masked b c \<Longrightarrow> masked a c"
  unfolding masked_def list_all2_conv_all_nth by (auto; metis)

lemma masked_space: "masked t t' \<Longrightarrow> i < length t \<Longrightarrow> t ! i = CHR '' '' \<Longrightarrow> t' ! i = CHR '' ''"
  using masked_nth by fastforce

lemma masked_blankOut: "masked (m_text m) (blankOut m)"
  by (simp add: masked_def blankOut_def spaces_def list_all2_conv_all_nth)

lemma masked_blankOutKeepLines: "masked (m_text m) (blankOutKeepLines m)"
  by (simp add: masked_def blankOutKeepLines_def list_all2_conv_all_nth)

lemma match_text:
  assumes "search ci r i p suf = Some (s0, s1)"
  shows "st_rest s0 = m_text (to_match t (s0, s1)) @ st_rest s1"
proof -
  have "reaches s0 s1"
    using search_Some [OF assms] ms_reaches by blast
  then show ?thesis
    by (auto simp: reaches_def to_match_def)
qed

lemma masked_replace_from:
  "(\<And>m. masked (m_text m) (f m)) \<Longrightarrow> masked suf (replace_from ci r f t i p suf)"
proof (induction ci r f t i p suf rule: replace_from.induct)
  case (1 ci r f t i p suf)
  note f = "1.prems"
  show ?case
  proof (cases "search ci r i p suf")
    case None
    then show ?thesis by (subst replace_from.simps) (simp add: masked_refl)
  next
    case (Some a)
    obtain s0 s1 where a: "a = (s0, s1)" by (cases a)
    have found: "search ci r i p suf = Some (s0, s1)"
      using Some a by simp
    obtain k where k: "k \<le> length suf" "st_pos s0 = i + k" "st_rest s0 = drop k suf"
      using search_Some [OF found] by blast
    define tl where "tl =
        (if shorter (st_rest s1) (st_rest s0)
         then (if shorter (st_rest s1) suf
               then replace_from ci r f t (st_pos s1) (st_prev s1) (st_rest s1)
               else st_rest s1)
         else (case st_rest s1 of
                 [] \<Rightarrow> []
               | c # cs \<Rightarrow>
                   c # (if shorter cs suf
                        then replace_from ci r f t (Suc (st_pos s1)) (Some c) cs else cs)))"
    have tail: "masked (st_rest s1) tl"
    proof (cases "shorter (st_rest s1) (st_rest s0)")
      case True
      then show ?thesis
        using "1.IH" (1) [of "(s0, s1)" s0 s1, OF found refl] f
        by (simp add: tl_def masked_refl)
    next
      case False
      show ?thesis
      proof (cases "st_rest s1")
        case Nil
        then show ?thesis using False by (simp add: tl_def masked_refl)
      next
        case (Cons c cs)
        have "masked cs (if shorter cs suf
                then replace_from ci r f t (Suc (st_pos s1)) (Some c) cs else cs)"
          using False Cons "1.IH" (2) [of "(s0, s1)" s0 s1 c cs, OF found refl] f
          by (simp add: masked_refl)
        then have "masked ([c] @ cs) ([c] @ (if shorter cs suf
                then replace_from ci r f t (Suc (st_pos s1)) (Some c) cs else cs))"
          by (intro masked_append masked_refl)
        then show ?thesis using False Cons by (simp add: tl_def)
      qed
    qed
    have res: "replace_from ci r f t i p suf =
            take k suf @ f (to_match t (s0, s1)) @ tl"
      by (subst replace_from.simps) (simp add: found tl_def k)
    have "suf = take k suf @ m_text (to_match t (s0, s1)) @ st_rest s1"
      using match_text [OF found, of t] k by (metis append_take_drop_id)
    moreover have "masked (take k suf @ m_text (to_match t (s0, s1)) @ st_rest s1)
                     (take k suf @ f (to_match t (s0, s1)) @ tl)"
      by (intro masked_append masked_refl f tail)
    ultimately show ?thesis using res by simp
  qed
qed

lemma masked_replace_all:
  "(\<And>m. masked (m_text m) (f m)) \<Longrightarrow> masked t (replace_all ci r f t)"
  by (simp add: replace_all_def masked_replace_from)

lemma masked_lines: "masked t (stripLineComments t)"
  by (simp add: stripLineComments_def masked_replace_all masked_blankOut)

lemma masked_blocks: "masked t (stripBlockComments t)"
  by (simp add: stripBlockComments_def masked_replace_all masked_blankOutKeepLines)

lemma masked_strings: "masked t (stripStrings t)"
  by (simp add: stripStrings_def masked_replace_all masked_blankOut)

subsection \<open>Repetition of a character class\<close>

lemma advance_0: "advance 0 s = s"
  by (simp add: advance_def)

lemma advance_Suc: "advance (Suc k) (MSt i p (c # cs) g) = advance k (MSt (Suc i) (Some c) cs g)"
  by (cases k) (simp_all add: advance_def)

lemma advance_add: "m \<le> length (st_rest s) \<Longrightarrow> advance k (advance m s) = advance (m + k) s"
  by (cases k; cases m) (simp_all add: advance_def add.commute)

lemma state_at_advance: "state_at i p suf k = advance k (MSt i p suf [])"
  by (simp add: state_at_def advance_def)

lemma is_prefix_iff: "is_prefix w t \<longleftrightarrow> (\<exists>v. t = w @ v)"
  by (induction w t rule: is_prefix.induct) auto

lemma is_prefix_take: "is_prefix w t \<longleftrightarrow> length w \<le> length t \<and> take (length w) t = w"
  by (induction w t rule: is_prefix.induct) auto

lemma lit_match_exact:
  "lit_match False w s = (if is_prefix w (st_rest s) then [advance (length w) s] else [])"
proof -
  obtain i p cs g where s: "s = MSt i p cs g" by (cases s)
  have "list_all2 (chr_eq False) w x = (w = x)" for x
    by (simp add: chr_eq_def [abs_def] list.rel_eq)
  then show ?thesis
    by (auto simp: s lit_match_eq is_prefix_take advance_def)
qed

lemma star_class:
  assumes "\<And>s. ms ci r s = step_if f s"
  shows "ms ci (Star r) s =
     map (\<lambda>k. advance k s) (rev [0..<Suc (length (takeWhile f (st_rest s)))])"
proof -
  obtain i p cs g where s: "s = MSt i p cs g" by (cases s)
  have "ms ci (Star r) (MSt i p cs g) =
     map (\<lambda>k. advance k (MSt i p cs g)) (rev [0..<Suc (length (takeWhile f cs))])"
  proof (induction cs arbitrary: i p)
    case Nil
    show ?case by (subst ms.simps) (simp add: assms advance_0)
  next
    case (Cons c cs)
    show ?case
    proof (cases "f c")
      case False
      then show ?thesis by (subst ms.simps) (simp add: assms advance_0)
    next
      case True
      let ?n = "length (takeWhile f cs)"
      have up: "[0..<Suc (Suc ?n)] = 0 # map Suc [0..<Suc ?n]"
        using upt_conv_Cons [of 0 "Suc (Suc ?n)"] map_Suc_upt [of 0 "Suc ?n"] by simp
      have "ms ci (Star r) (MSt i p (c # cs) g) =
            ms ci (Star r) (MSt (Suc i) (Some c) cs g) @ [MSt i p (c # cs) g]"
        using True by (subst ms.simps) (simp add: assms progress_def shorter_iff)
      also have "\<dots> = map (\<lambda>k. advance k (MSt (Suc i) (Some c) cs g)) (rev [0..<Suc ?n])
                      @ [MSt i p (c # cs) g]"
        by (simp only: Cons.IH)
      also have "\<dots> = map (\<lambda>k. advance k (MSt i p (c # cs) g)) (rev [0..<Suc (Suc ?n)])"
        unfolding up by (simp add: rev_map advance_Suc advance_0 comp_def del: upt_Suc)
      finally show ?thesis using True by simp
    qed
  qed
  then show ?thesis by (simp add: s)
qed

lemma lazy_star_class:
  assumes "\<And>s. ms ci r s = step_if f s"
  shows "ms ci (LazyStar r) s =
     map (\<lambda>k. advance k s) [0..<Suc (length (takeWhile f (st_rest s)))]"
proof -
  obtain i p cs g where s: "s = MSt i p cs g" by (cases s)
  have "ms ci (LazyStar r) (MSt i p cs g) =
     map (\<lambda>k. advance k (MSt i p cs g)) [0..<Suc (length (takeWhile f cs))]"
  proof (induction cs arbitrary: i p)
    case Nil
    show ?case by (subst ms.simps) (simp add: assms advance_0)
  next
    case (Cons c cs)
    show ?case
    proof (cases "f c")
      case False
      then show ?thesis by (subst ms.simps) (simp add: assms advance_0)
    next
      case True
      let ?n = "length (takeWhile f cs)"
      have up: "[0..<Suc (Suc ?n)] = 0 # map Suc [0..<Suc ?n]"
        using upt_conv_Cons [of 0 "Suc (Suc ?n)"] map_Suc_upt [of 0 "Suc ?n"] by simp
      have "ms ci (LazyStar r) (MSt i p (c # cs) g) =
            MSt i p (c # cs) g # ms ci (LazyStar r) (MSt (Suc i) (Some c) cs g)"
        using True by (subst ms.simps) (simp add: assms progress_def shorter_iff)
      also have "\<dots> = MSt i p (c # cs) g #
                    map (\<lambda>k. advance k (MSt (Suc i) (Some c) cs g)) [0..<Suc ?n]"
        by (simp only: Cons.IH)
      also have "\<dots> = map (\<lambda>k. advance k (MSt i p (c # cs) g)) [0..<Suc (Suc ?n)]"
        unfolding up by (simp add: advance_Suc advance_0 comp_def del: upt_Suc)
      finally show ?thesis using True by simp
    qed
  qed
  then show ?thesis by (simp add: s)
qed

lemma newline_class: "cls_match False [(newline, newline)] c = (c = newline)"
  by (cases c) (auto simp: cls_match_def newline_def char_le_def)

lemma quote_class: "cls_match False [(quote, quote)] c = (c = quote)"
  by (cases c) (auto simp: cls_match_def quote_def char_le_def)

subsection \<open>Replacement at the first match\<close>

lemma replace_from_None: "search ci r i p suf = None \<Longrightarrow> replace_from ci r f t i p suf = suf"
  by (subst replace_from.simps) simp

lemma replace_from_at:
  assumes "k \<le> length suf" and "ms ci r (state_at i p suf k) \<noteq> []"
    and "\<forall>j < k. ms ci r (state_at i p suf j) = []"
    and "hd (ms ci r (state_at i p suf k)) = advance n (state_at i p suf k)"
    and "0 < n" and "k + n \<le> length suf"
  shows "\<exists>i' p' m. replace_from ci r f t i p suf =
           take k suf @ f m @ replace_from ci r f t i' p' (drop (k + n) suf)
           \<and> m_text m = take n (drop k suf) \<and> m_index m = i + k
           \<and> m = to_match t (state_at i p suf k, advance n (state_at i p suf k))"
proof -
  let ?s0 = "state_at i p suf k"
  let ?s1 = "advance n ?s0"
  have found: "search ci r i p suf = Some (?s0, ?s1)"
    using search_first [OF assms(1-3)] assms(4) by simp
  have rest: "st_rest ?s1 = drop (k + n) suf" "st_rest ?s0 = drop k suf"
    "st_pos ?s0 = i + k" "st_pos ?s1 = i + k + n"
    by (simp_all add: advance_def state_at_def add.commute)
  have sh: "shorter (drop (k + n) suf) (drop k suf)" "shorter (drop (k + n) suf) suf"
    using assms(5,6) by (simp_all add: shorter_iff del: shorter.simps)
  have "replace_from ci r f t i p suf =
          take k suf @ f (to_match t (?s0, ?s1)) @
          replace_from ci r f t (st_pos ?s1) (st_prev ?s1) (drop (k + n) suf)"
    by (subst replace_from.simps) (simp add: found sh rest del: shorter.simps)
  moreover have "m_text (to_match t (?s0, ?s1)) = take n (drop k suf)"
    "m_index (to_match t (?s0, ?s1)) = i + k"
    by (simp_all add: to_match_def rest)
  ultimately show ?thesis by blast
qed

lemma line_ms:
  "ms False lineCommentPattern s =
     (if is_prefix ''--'' (st_rest s)
      then map (\<lambda>k. advance (2 + k) s)
             (rev [0..<Suc (length (takeWhile (\<lambda>c. c \<noteq> newline) (drop 2 (st_rest s))))])
      else [])"
proof (cases "is_prefix ''--'' (st_rest s)")
  case False
  then show ?thesis by (simp add: lineCommentPattern_def lit_match_exact)
next
  case True
  then have len: "2 \<le> length (st_rest s)"
    by (auto simp: is_prefix_iff)
  have l2: "length ''--'' = 2"
    by simp
  have lit: "lit_match False ''--'' s = [advance 2 s]"
    using lit_match_exact [of "''--''" s] True unfolding l2 by simp
  have r: "st_rest (advance 2 s) = drop 2 (st_rest s)"
    by (simp add: advance_def)
  have "ms False (Star (NSet [(newline, newline)])) (advance 2 s) =
      map (\<lambda>k. advance k (advance 2 s))
        (rev [0..<Suc (length (takeWhile (\<lambda>c. c \<noteq> newline) (st_rest (advance 2 s))))])"
    using star_class [of False "NSet [(newline, newline)]" "\<lambda>c. c \<noteq> newline" "advance 2 s"]
    by (simp add: newline_class)
  then have "ms False lineCommentPattern s =
      map (\<lambda>k. advance k (advance 2 s))
        (rev [0..<Suc (length (takeWhile (\<lambda>c. c \<noteq> newline) (drop 2 (st_rest s))))])"
    unfolding lineCommentPattern_def ms.simps(4) ms.simps(1) lit r by simp
  then show ?thesis
    using True by (simp only: advance_add [OF len] if_True)
qed

lemma line_step:
  assumes "k \<le> length suf" and "is_prefix ''--'' (drop k suf)"
    and "\<forall>j < k. \<not> is_prefix ''--'' (drop j suf)"
  shows "\<exists>i' p'. replace_from False lineCommentPattern blankOut t i p suf =
           take k suf @ spaces (2 + length (takeWhile (\<lambda>c. c \<noteq> newline) (drop (k + 2) suf)))
           @ replace_from False lineCommentPattern blankOut t i' p'
               (drop (k + 2 + length (takeWhile (\<lambda>c. c \<noteq> newline) (drop (k + 2) suf))) suf)"
proof -
  let ?n = "length (takeWhile (\<lambda>c. c \<noteq> newline) (drop (k + 2) suf))"
  have rest: "st_rest (state_at i p suf j) = drop j suf" for j
    by (simp add: state_at_def)
  have d: "drop 2 (drop k suf) = drop (k + 2) suf"
    by (simp add: add.commute)
  have "?n \<le> length (drop (k + 2) suf)"
    by (rule length_takeWhile_le)
  moreover have "2 \<le> length (drop k suf)"
  proof -
    obtain v where "drop k suf = ''--'' @ v"
      using assms(2) by (auto simp: is_prefix_iff)
    then have "length (drop k suf) = length (''--'' @ v)"
      by (rule arg_cong)
    then show ?thesis by simp
  qed
  ultimately have len: "k + (2 + ?n) \<le> length suf"
    by simp
  have hd: "hd (ms False lineCommentPattern (state_at i p suf k))
             = advance (2 + ?n) (state_at i p suf k)"
    using assms(2) by (simp add: line_ms rest d hd_map hd_rev del: upt_Suc) 
  obtain i' p' m where r: "replace_from False lineCommentPattern blankOut t i p suf =
           take k suf @ blankOut m @
           replace_from False lineCommentPattern blankOut t i' p' (drop (k + (2 + ?n)) suf)"
    and m: "m_text m = take (2 + ?n) (drop k suf)"
    using replace_from_at [of k suf False lineCommentPattern i p "2 + ?n" blankOut t]
      assms hd len by (auto simp: line_ms rest)
  have "blankOut m = spaces (2 + ?n)"
    using len by (simp add: blankOut_def m)
  then show ?thesis using r by (auto simp: add.assoc)
qed

lemma index_from_None:
  "index_from w i t = None \<longleftrightarrow> (\<forall>k \<le> length t. \<not> is_prefix w (drop k t))"
proof (induction w i t rule: index_from.induct)
  case (1 w i)
  then show ?case by (cases w) auto
next
  case (2 w i c cs)
  show ?case
  proof (cases "is_prefix w (c # cs)")
    case True
    then show ?thesis by (auto intro: exI [of _ 0])
  next
    case False
    have "(\<forall>k \<le> length (c # cs). \<not> is_prefix w (drop k (c # cs)))
          \<longleftrightarrow> (\<forall>k \<le> length cs. \<not> is_prefix w (drop k cs))"
      using False by (auto simp: drop_Cons split: nat.splits)
    then show ?thesis using False 2 by simp
  qed
qed

lemma indexOf_None: "indexOf t w = None \<longleftrightarrow> (\<forall>k \<le> length t. \<not> is_prefix w (drop k t))"
  by (simp add: indexOf_def index_from_None)

lemma lit_first_None:
  assumes "\<forall>k \<le> length suf. \<not> is_prefix w (drop k suf)"
  shows "search False (Seq (Lit w) r) i p suf = None"
  using assms by (simp add: search_None_iff lit_match_exact state_at_def)

subsection \<open>Line comments\<close>

lemma least_prefix:
  assumes "a \<le> length suf" "is_prefix w (drop a suf)"
  shows "\<exists>k \<le> a. is_prefix w (drop k suf) \<and> (\<forall>j < k. \<not> is_prefix w (drop j suf))"
proof -
  define k where "k = (LEAST k. is_prefix w (drop k suf))"
  have "is_prefix w (drop k suf)"
    unfolding k_def using assms(2) by (rule LeastI)
  moreover have "k \<le> a"
    unfolding k_def using assms(2) by (rule Least_le)
  moreover have "\<forall>j < k. \<not> is_prefix w (drop j suf)"
    unfolding k_def using not_less_Least by blast
  ultimately show ?thesis by blast
qed

lemma nth_in_spaces:
  "length x = k \<Longrightarrow> k \<le> n \<Longrightarrow> n < k + m \<Longrightarrow> (x @ spaces m @ y) ! n = CHR '' ''"
  by (auto simp: nth_append spaces_def)

lemma nth_after_spaces:
  "length x = k \<Longrightarrow> k + m \<le> n \<Longrightarrow> (x @ spaces m @ y) ! n = y ! (n - (k + m))"
  by (auto simp: nth_append spaces_def)

lemma line_comment_masked:
  "suf = a @ ''--'' @ c @ b \<Longrightarrow> newline \<notin> set c \<Longrightarrow> length a \<le> n \<Longrightarrow>
   n < length a + 2 + length c \<Longrightarrow>
   replace_from False lineCommentPattern blankOut t i p suf ! n = CHR '' ''"
proof (induction suf arbitrary: a n i p rule: length_induct)
  case (1 suf)
  have pre: "is_prefix ''--'' (drop (length a) suf)"
    using "1.prems" (1) by (simp add: is_prefix_iff)
  have la: "length a \<le> length suf"
    using "1.prems" (1) by simp
  obtain k where k: "k \<le> length a" "is_prefix ''--'' (drop k suf)"
    "\<forall>j < k. \<not> is_prefix ''--'' (drop j suf)"
    using least_prefix [OF la pre] by blast
  define m where "m = length (takeWhile (\<lambda>c. c \<noteq> newline) (drop (k + 2) suf))"
  obtain i' p' where r: "replace_from False lineCommentPattern blankOut t i p suf =
       take k suf @ spaces (2 + m) @
       replace_from False lineCommentPattern blankOut t i' p' (drop (k + 2 + m) suf)"
    using line_step [of k suf t i p] k la unfolding m_def by auto
  have lk: "length (take k suf) = k"
    using k la by simp
  show ?case
  proof (cases "n < k + 2 + m")
    case True
    then show ?thesis
      unfolding r using "1.prems" (3) k(1) by (intro nth_in_spaces [OF lk]) simp_all
  next
    case False
    have nlen: "n < length suf"
      using "1.prems" by simp
    have far: "k + 2 + m \<le> length a"
    proof (rule ccontr)
      assume "\<not> k + 2 + m \<le> length a"
      then have q: "length a < k + 2 + m" by simp
      have "m < length (drop (k + 2) suf)"
        using False nlen by simp
      then have "\<not> (drop (k + 2) suf ! m \<noteq> newline)"
        unfolding m_def by (rule nth_length_takeWhile)
      then have nl: "suf ! (k + 2 + m) = newline"
        using False nlen by simp
      have "k + 2 + m - length a - 2 < length c \<or> k + 2 + m = length a + 1"
        using q False "1.prems" by arith
      then have "suf ! (k + 2 + m) \<noteq> newline"
      proof
        assume "k + 2 + m - length a - 2 < length c"
        moreover have "2 \<le> k + 2 + m - length a \<or> k + 2 + m = length a + 1"
          using q by arith
        moreover have "CHR ''-'' \<noteq> newline"
          by (simp add: newline_def)
        ultimately show ?thesis
          using "1.prems" (1,2) q
          by (auto simp: nth_append nth_Cons split: nat.splits dest: nth_mem)
      next
        assume "k + 2 + m = length a + 1"
        then show ?thesis
          using "1.prems" (1) by (simp add: nth_append newline_def)
      qed
      then show False using nl by simp
    qed
    let ?d = "k + 2 + m"
    have d: "drop ?d suf = drop ?d a @ ''--'' @ c @ b"
      using far "1.prems" (1) by simp
    have sh: "length (drop ?d suf) < length suf"
      using nlen by simp
    have "replace_from False lineCommentPattern blankOut t i' p' (drop ?d suf) ! (n - ?d)
            = CHR '' ''"
      using "1.IH" [rule_format, OF sh d "1.prems" (2), of "n - ?d" i' p'] far False "1.prems" (3,4)
      by simp
    moreover have "k + (2 + m) \<le> n"
      using False by simp
    ultimately show ?thesis
      unfolding r by (simp only: nth_after_spaces [OF lk] add.assoc)
  qed
qed

lemma stripLineComments_masks:
  "newline \<notin> set c \<Longrightarrow> length a \<le> n \<Longrightarrow> n < length a + 2 + length c \<Longrightarrow>
   stripLineComments (a @ ''--'' @ c @ b) ! n = CHR '' ''"
  by (simp add: stripLineComments_def replace_all_def line_comment_masked)

lemma sanitizer_masks_line_comment:
  assumes "newline \<notin> set c" "length a \<le> n" "n < length a + 2 + length c"
  shows "stripCommentsAndStrings (a @ ''--'' @ c @ b) ! n = CHR '' ''"
proof -
  let ?t = "a @ ''--'' @ c @ b"
  have "masked (stripLineComments ?t) (stripCommentsAndStrings ?t)"
    unfolding stripCommentsAndStrings_def
    by (rule masked_trans [OF masked_blocks masked_strings])
  moreover have "n < length (stripLineComments ?t)"
    using assms masked_length [OF masked_lines, of ?t] by simp
  ultimately show ?thesis
    using stripLineComments_masks [OF assms] masked_space by blast
qed

subsection \<open>Texts without a closing mark\<close>

lemma is_prefix_pair:
  "is_prefix [x, y] (drop k t) \<longleftrightarrow> Suc k < length t \<and> t ! k = x \<and> t ! Suc k = y"
proof
  assume "is_prefix [x, y] (drop k t)"
  then obtain v where v: "drop k t = x # y # v"
    by (auto simp: is_prefix_iff)
  then have "drop (Suc k) t = y # v"
    by (metis drop_Suc list.sel(3) tl_drop)
  then have "t ! Suc k = y" "Suc k < length t"
    by (auto simp: nth_via_drop intro: ccontr)
  moreover have "t ! k = x"
    using v by (rule nth_via_drop)
  ultimately show "Suc k < length t \<and> t ! k = x \<and> t ! Suc k = y" by simp
next
  assume a: "Suc k < length t \<and> t ! k = x \<and> t ! Suc k = y"
  then have "drop k t = x # y # drop (Suc (Suc k)) t"
    by (metis Cons_nth_drop_Suc Suc_lessD)
  then show "is_prefix [x, y] (drop k t)" by simp
qed

lemma masked_no_pair:
  assumes "masked t t'" and "indexOf t [x, y] = None"
    and "x \<noteq> CHR '' ''" and "y \<noteq> CHR '' ''"
  shows "indexOf t' [x, y] = None"
proof -
  have len: "length t' = length t"
    using assms(1) by (rule masked_length)
  have "\<not> is_prefix [x, y] (drop k t')" for k
  proof
    assume "is_prefix [x, y] (drop k t')"
    then have k: "Suc k < length t" "t' ! k = x" "t' ! Suc k = y"
      by (simp_all add: is_prefix_pair len)
    then have "t ! k = x" "t ! Suc k = y"
      using masked_nth [OF assms(1), of k] masked_nth [OF assms(1), of "Suc k"] assms(3,4)
      by auto
    then have "is_prefix [x, y] (drop k t)"
      using k by (simp add: is_prefix_pair)
    then show False
      using assms(2) k(1) by (simp add: indexOf_None)
  qed
  then show ?thesis by (simp add: indexOf_None)
qed

lemma lit_last:
  assumes "s1 \<in> set (ms False (Seq r (Lit w)) s)"
  shows "\<exists>j \<le> length (st_rest s). is_prefix w (drop j (st_rest s))"
proof -
  obtain sb where sb: "sb \<in> set (ms False r s)" "s1 \<in> set (lit_match False w sb)"
    using assms by auto
  then have "is_prefix w (st_rest sb)"
    by (auto simp: lit_match_exact split: if_splits)
  moreover obtain u where "st_rest s = u @ st_rest sb"
    using ms_reaches [OF sb(1)] by (auto simp: reaches_def)
  ultimately have "is_prefix w (drop (length u) (st_rest s))" "length u \<le> length (st_rest s)"
    by simp_all
  then show ?thesis by blast
qed

lemma block_none:
  assumes "indexOf suf ''*/'' = None"
  shows "search False blockCommentPattern i p suf = None"
proof -
  have "ms False blockCommentPattern (state_at i p suf k) = []" if "k \<le> length suf" for k
  proof (rule ccontr)
    assume "ms False blockCommentPattern (state_at i p suf k) \<noteq> []"
    then have "ms False (Seq (Lit ''/*'') (Seq (LazyStar AnyChar) (Lit ''*/'')))
                 (state_at i p suf k) \<noteq> []"
      by (simp add: blockCommentPattern_def del: ms.simps)
    then obtain s1 where
      "s1 \<in> set (ms False (Seq (Lit ''/*'') (Seq (LazyStar AnyChar) (Lit ''*/''))) (state_at i p suf k))"
      using hd_in_set by blast
    then obtain sa where sa: "sa \<in> set (ms False (Lit ''/*'') (state_at i p suf k))"
      "s1 \<in> set (ms False (Seq (LazyStar AnyChar) (Lit ''*/'')) sa)"
      by (auto simp del: ms.simps(1) lit_match.simps)
    obtain j where j: "is_prefix ''*/'' (drop j (st_rest sa))" "j \<le> length (st_rest sa)"
      using lit_last [OF sa(2)] by blast
    obtain u where u: "drop k suf = u @ st_rest sa"
      using ms_reaches [OF sa(1)] by (auto simp: reaches_def state_at_def)
    have "drop (k + length u + j) suf = drop j (drop (length u) (drop k suf))"
      by (simp add: add.commute add.left_commute)
    also have "\<dots> = drop j (st_rest sa)"
      unfolding u by simp
    finally have "drop (k + length u + j) suf = drop j (st_rest sa)" .
    moreover have "k + length u + j \<le> length suf"
      using j(2) that arg_cong [OF u, of length] by simp
    ultimately show False
      using assms j(1) by (auto simp: indexOf_None)
  qed
  then show ?thesis by (simp add: search_None_iff)
qed

lemma stripBlockComments_no_close:
  "indexOf t ''*/'' = None \<Longrightarrow> stripBlockComments t = t"
  by (simp add: stripBlockComments_def replace_all_def block_none replace_from_None)

lemma stripLineComments_no_dashes:
  "indexOf t ''--'' = None \<Longrightarrow> stripLineComments t = t"
  by (simp add: stripLineComments_def replace_all_def lineCommentPattern_def
      lit_first_None replace_from_None indexOf_None)

lemma stripStrings_no_quote:
  "indexOf t [quote] = None \<Longrightarrow> stripStrings t = t"
  by (simp add: stripStrings_def replace_all_def stringLiteralPattern_def
      lit_first_None replace_from_None indexOf_None)

lemma sanitizer_no_close:
  assumes "indexOf t ''*/'' = None"
  shows "stripCommentsAndStrings t = stripStrings (stripLineComments t)"
proof -
  have "indexOf (stripLineComments t) ''*/'' = None"
    using masked_lines assms by (rule masked_no_pair) simp_all
  then show ?thesis
    by (simp add: stripCommentsAndStrings_def stripBlockComments_no_close)
qed

subsection \<open>Severities\<close>

lemma list_all_concat_map:
  "(\<And>x. list_all P (f x)) \<Longrightarrow> list_all P (concat (map f xs))"
  by (induction xs) simp_all

lemma unclosedString_structural: "list_all structuralDiag (unclosedStringCheck t)"
  by (simp add: unclosedStringCheck_def structuralDiag_def unknownFinding_def split: prod.split)

lemma trailingComma_structural: "list_all structuralDiag (trailingCommaCheck t)"
  by (simp add: trailingCommaCheck_def structuralDiag_def unknownFinding_def diag_at_def list_all_iff)

lemma parenScanLine_structural:
  "list_all structuralDiag (snd (snd st)) \<Longrightarrow>
   list_all structuralDiag (snd (snd (parenScanLine l c inStr cs st)))"
  by (induction l c inStr cs st rule: parenScanLine.induct)
     (simp_all add: structuralDiag_def unknownFinding_def unexpectedClosing_def)

lemma parenScan_structural:
  "list_all structuralDiag (snd (snd st)) \<Longrightarrow>
   list_all structuralDiag (snd (snd (parenScan l ls st)))"
  by (induction l ls st rule: parenScan.induct) (simp_all add: parenScanLine_structural)

lemma parenCheck_structural: "list_all structuralDiag (parenCheck t)"
proof -
  have "list_all structuralDiag (snd (snd (parenScan 0 (split_on newline t) (0, [], []))))"
    by (rule parenScan_structural) simp
  moreover obtain depth stack ds where
    scan: "parenScan 0 (split_on newline t) (0, [], []) = (depth, stack, ds)"
    by (cases "parenScan 0 (split_on newline t) (0, [], [])") auto
  moreover have "list_all structuralDiag (map unclosedParen stack)"
    by (simp add: list_all_iff structuralDiag_def unknownFinding_def unclosedParen_def)
  ultimately show ?thesis
    by (simp add: parenCheck_def)
qed

lemma emptySelect_structural: "list_all structuralDiag (emptySelectCheck t)"
  by (simp add: emptySelectCheck_def structuralDiag_def unknownFinding_def diag_at_def list_all_iff)

lemma doubleComma_structural: "list_all structuralDiag (doubleCommaCheck t)"
  by (simp add: doubleCommaCheck_def structuralDiag_def unknownFinding_def diag_at_def list_all_iff)

lemma missingCommaIn_structural: "list_all structuralDiag (missingCommaIn t m)"
  by (simp add: missingCommaIn_def structuralDiag_def unknownFinding_def diag_at_def
        list_all_iff Let_def)

lemma missingComma_structural: "list_all structuralDiag (missingCommaCheck t)"
  unfolding missingCommaCheck_def by (rule list_all_concat_map) (rule missingCommaIn_structural)

lemma incompleteDot_structural: "list_all structuralDiag (incompleteDotCheck t)"
  by (simp add: incompleteDotCheck_def structuralDiag_def unknownFinding_def diag_at_def list_all_iff)

lemma structuralChecks_structural: "list_all structuralDiag (structuralChecks t)"
  by (simp add: structuralChecks_def unclosedString_structural trailingComma_structural
        parenCheck_structural emptySelect_structural doubleComma_structural
        missingComma_structural incompleteDot_structural)

lemma unknownTable_schema: "list_all schemaDiag (unknownTableCheck t tabs names)"
  by (simp add: unknownTableCheck_def schemaDiag_def unknownFinding_def diag_at_def
        list_all_iff Let_def)

lemma unknownCteColumn_schema: "schemaDiag (unknownCteColumn t m cte)"
  by (simp add: unknownCteColumn_def schemaDiag_def unknownFinding_def diag_at_def)

lemma tableColumnCheck_schema: "list_all schemaDiag (tableColumnCheck t m ft)"
  by (simp add: tableColumnCheck_def schemaDiag_def unknownFinding_def diag_at_def
        split: option.split)

lemma columnRefDiags_schema: "list_all schemaDiag (columnRefDiags t tabs ctes m)"
  by (simp add: columnRefDiags_def Let_def unknownCteColumn_schema tableColumnCheck_schema
        split: option.split)

lemma columnRef_schema: "list_all schemaDiag (columnRefCheck t tabs ctes)"
  unfolding columnRefCheck_def by (rule list_all_concat_map) (rule columnRefDiags_schema)

lemma bodyColumnDiags_schema: "list_all schemaDiag (bodyColumnDiags t tabs ctes cur refs ce)"
  by (simp add: bodyColumnDiags_def Let_def schemaDiag_def unknownFinding_def diag_at_def
        list_all_iff)

lemma bodyCheckOf_schema: "list_all schemaDiag (bodyCheckOf t tabs ctes cur)"
  by (simp add: bodyCheckOf_def Let_def list_all_concat_map bodyColumnDiags_schema
        split: option.split)

lemma bodyColumns_schema: "list_all schemaDiag (bodyColumnsCheck t tabs ctes)"
  unfolding bodyColumnsCheck_def by (rule list_all_concat_map) (rule bodyCheckOf_schema)

lemma mainColumnDiags_schema: "list_all schemaDiag (mainColumnDiags t tabs refs ce)"
  by (simp add: mainColumnDiags_def Let_def schemaDiag_def unknownFinding_def diag_at_def
        list_all_iff)

lemma mainQuery_schema: "list_all schemaDiag (mainQueryCheck t tabs ctes)"
  by (simp add: mainQueryCheck_def Let_def list_all_concat_map mainColumnDiags_schema
        split: option.split)

lemma schemaChecks_schema: "list_all schemaDiag (schemaChecks t cfg)"
  by (simp add: schemaChecks_def Let_def unknownTable_schema columnRef_schema
        bodyColumns_schema mainQuery_schema)

section \<open>Properties\<close>

text \<open>
  C1. For the text \<^verbatim>\<open>WITH A AS (SELECT EMP_ID FROM EMPLOYEES) SELECT A.NAME FROM A\<close> and
  the schema with the one table EMPLOYEES (columns EMP_ID and NAME), the validator returns
  exactly one diagnostic: a warning on \<^verbatim>\<open>NAME\<close> (columns 51 to 55 of line 1) that says
  that the column NAME is unknown in the common table expression A and lists the columns
  of A, which are EMP_ID alone. The qualifier A is taken as the declared expression, so
  the column NAME of the schema table plays no part.
\<close>

theorem cte_qualifier_unknown_column:
  "validateDB2SQL ''WITH A AS (SELECT EMP_ID FROM EMPLOYEES) SELECT A.NAME FROM A''
     (Some employeesSchema) =
   [\<lparr>startLineNumber = 1, startColumn = 51, endLineNumber = 1, endColumn = 55,
     message = ''Unknown column '' @ dq @ ''NAME'' @ dq @ '' in CTE '' @ dq @ ''A'' @ dq
               @ ''. Available columns: EMP_ID'',
     severity = Warning\<rparr>]"
  by code_simp

text \<open>
  C8. With the schema of the one table EMPLOYEES (columns EMP_ID and NAME):
  \<^verbatim>\<open>SELECT * FROM DEPTS\<close> gives exactly one diagnostic, a warning that names DEPTS as an
  unknown table; \<^verbatim>\<open>SELECT * FROM EMPLOYEES\<close> gives no diagnostic; and
  \<^verbatim>\<open>SELECT E.SALARY FROM EMPLOYEES E\<close> gives exactly one diagnostic, a warning that
  SALARY is unknown in the table EMPLOYEES, to which the alias E was resolved.
\<close>

theorem schema_examples:
  "validateDB2SQL ''SELECT * FROM DEPTS'' (Some employeesSchema) =
     [\<lparr>startLineNumber = 1, startColumn = 15, endLineNumber = 1, endColumn = 20,
       message = ''Unknown table: DEPTS'', severity = Warning\<rparr>]
   \<and> validateDB2SQL ''SELECT * FROM EMPLOYEES'' (Some employeesSchema) = []
   \<and> validateDB2SQL ''SELECT E.SALARY FROM EMPLOYEES E'' (Some employeesSchema) =
     [\<lparr>startLineNumber = 1, startColumn = 10, endLineNumber = 1, endColumn = 16,
       message = ''Unknown column '' @ dq @ ''SALARY'' @ dq @ '' in table '' @ dq
                 @ ''EMPLOYEES'' @ dq,
       severity = Warning\<rparr>]"
  by code_simp

text \<open>
  C2. For the text \<^verbatim>\<open>WITH A AS (SELECT X, Y FROM T)\<close> the parser returns exactly one
  expression: its name is A, its columns are X and Y in this order, and its
  \<^verbatim>\<open>fromTables\<close> is the list of T alone (it spans the offsets 5 to 30, its body 11 to
  29). And for every text without the keyword \<^verbatim>\<open>WITH\<close> the parser returns the empty
  list.
\<close>

theorem parseCTEs_example_and_no_with:
  "parseCTEs ''WITH A AS (SELECT X, Y FROM T)'' =
     [\<lparr>cte_name = ''A'',
       cte_columns =
         [\<lparr>pc_name = ''X'', pc_expression = None, pc_sourceTable = None,
           pc_sourceColumn = Some ''X''\<rparr>,
          \<lparr>pc_name = ''Y'', pc_expression = None, pc_sourceTable = None,
           pc_sourceColumn = Some ''Y''\<rparr>],
       startOffset = 5, endOffset = 30, bodyStartOffset = 11, bodyEndOffset = 29,
       fromTables = [''T'']\<rparr>]
   \<and> (\<forall>t. \<not> hasWithKeyword t \<longrightarrow> parseCTEs t = [])"
proof -
  have "parseCTEs ''WITH A AS (SELECT X, Y FROM T)'' =
     [\<lparr>cte_name = ''A'',
       cte_columns =
         [\<lparr>pc_name = ''X'', pc_expression = None, pc_sourceTable = None,
           pc_sourceColumn = Some ''X''\<rparr>,
          \<lparr>pc_name = ''Y'', pc_expression = None, pc_sourceTable = None,
           pc_sourceColumn = Some ''Y''\<rparr>],
       startOffset = 5, endOffset = 30, bodyStartOffset = 11, bodyEndOffset = 29,
       fromTables = [''T'']\<rparr>]"
    by code_simp
  moreover have "\<And>t. \<not> hasWithKeyword t \<Longrightarrow> parseCTEs t = []"
    using no_with_no_match by (simp add: parseCTEs_def)
  ultimately show ?thesis by blast
qed

theorem parseCTEs_no_with_witness:
  "\<not> hasWithKeyword ''SELECT X FROM T'' \<and> parseCTEs ''SELECT X FROM T'' = []"
proof -
  have "list_all (\<lambda>a. up_char a \<noteq> CHR ''W'') ''SELECT X FROM T''"
    by code_simp
  then have "\<not> hasWithKeyword ''SELECT X FROM T''"
    using hasWithKeyword_letter [of "''SELECT X FROM T''"] by (auto simp: list_all_iff)
  then show ?thesis
    using parseCTEs_example_and_no_with by blast
qed

text \<open>
  C3. The claim says that the scan for unclosed strings toggles its state on each of two
  adjacent quotes, so that \<^verbatim>\<open>SELECT 'a''b' FROM t\<close> gives no diagnostic for an unclosed
  string. The scan skips a quote that comes right after a quote: of the four quotes of
  that text the third is skipped, the fourth opens a string, and the validator reports
  an unclosed string literal at the fourth quote (line 1, column 13).
\<close>

theorem doubled_quote_reported_unclosed:
  "validateDB2SQL doubledQuoteText None =
   [\<lparr>startLineNumber = 1, startColumn = 13, endLineNumber = 1, endColumn = 14,
     message = ''Unclosed string literal'', severity = Error\<rparr>]"
  by code_simp

text \<open>
  C6. \<^verbatim>\<open>SELECT * FROM (T\<close> gives exactly one diagnostic, an unclosed parenthesis at the
  parenthesis (column 15), and \<^verbatim>\<open>SELECT * FROM T)\<close> exactly one, an unexpected closing
  parenthesis (column 16). The string state of the scan starts afresh on every line: in
  the text of two lines \<^verbatim>\<open>SELECT '\<close> and \<^verbatim>\<open>' FROM (T\<close> the quote of the second line
  is taken to open a string, the parenthesis after it is skipped, and the validator
  reports nothing although that parenthesis is outside the string literal and still
  open at the end.
\<close>

theorem paren_examples_and_two_line_string:
  "validateDB2SQL ''SELECT * FROM (T'' None =
     [\<lparr>startLineNumber = 1, startColumn = 15, endLineNumber = 1, endColumn = 16,
       message = ''Unclosed parenthesis'', severity = Error\<rparr>]
   \<and> validateDB2SQL ''SELECT * FROM T)'' None =
     [\<lparr>startLineNumber = 1, startColumn = 16, endLineNumber = 1, endColumn = 17,
       message = ''Unexpected closing parenthesis'', severity = Error\<rparr>]
   \<and> validateDB2SQL twoLineStringText None = []"
  by code_simp

text \<open>
  C10. The claim says that the provider returns no suggestion whenever the cursor is
  after an unquoted \<^verbatim>\<open>--\<close> of its line. On the line \<^verbatim>\<open>SELECT '--' -- x\<close> with the
  cursor at the end, the \<^verbatim>\<open>--\<close> at index 12 has an even number of quotes before it, so
  the cursor is inside a line comment; the provider looks at the first \<^verbatim>\<open>--\<close> only,
  which is inside the string, and goes on to build its suggestions.
\<close>

theorem second_dashes_not_suppressed:
  "is_prefix ''--'' (drop 12 quotedDashesLine)
   \<and> \<not> quotesOpen (take 12 quotedDashesLine)
   \<and> provideCompletionItems suggest [quotedDashesLine] \<lparr>lineNumber = 1, column = 17\<rparr>
       = suggest [quotedDashesLine] \<lparr>lineNumber = 1, column = 17\<rparr>"
proof -
  have dashes: "is_prefix ''--'' (drop 12 quotedDashesLine)"
    by code_simp
  have quotes: "\<not> quotesOpen (take 12 quotedDashesLine)"
    by code_simp
  have line: "inLineComment (lineBeforeCursor [quotedDashesLine]
                \<lparr>lineNumber = 1, column = 17\<rparr>) = False"
    by code_simp
  have block: "(blockCommentScan (getValueToPosition [quotedDashesLine]
                 \<lparr>lineNumber = 1, column = 17\<rparr>) 0 False > 0) = False"
    by code_simp
  show ?thesis
    unfolding provideCompletionItems_def using dashes quotes line block by simp
qed

text \<open>
  C7. Called without a schema description, the validator returns the diagnostics of the
  structural checks and nothing else: every one of them has severity error, and none is
  a finding about an unknown table or column. With a schema description it returns those
  and then the diagnostics of the checks against the schema, every one of which is a
  finding about an unknown table or column with severity warning; so every such finding
  that the validator returns is a warning, never an error.
\<close>

theorem schema_findings_are_warnings:
  "validateDB2SQL t None = structuralChecks t
   \<and> (\<forall>d \<in> set (validateDB2SQL t None). severity d = Error \<and> \<not> unknownFinding d)
   \<and> validateDB2SQL t (Some cfg) = structuralChecks t @ schemaChecks t cfg
   \<and> (\<forall>d \<in> set (structuralChecks t). severity d = Error \<and> \<not> unknownFinding d)
   \<and> (\<forall>d \<in> set (schemaChecks t cfg). severity d = Warning \<and> unknownFinding d)
   \<and> (\<forall>d \<in> set (validateDB2SQL t (Some cfg)). unknownFinding d \<longrightarrow> severity d = Warning)"
  using structuralChecks_structural [of t] schemaChecks_schema [of t cfg]
  by (auto simp: validateDB2SQL_def list_all_iff structuralDiag_def schemaDiag_def)

theorem schema_findings_are_warnings_witness:
  "\<lparr>startLineNumber = 1, startColumn = 15, endLineNumber = 1, endColumn = 20,
     message = ''Unknown table: DEPTS'', severity = Warning\<rparr>
     \<in> set (validateDB2SQL ''SELECT * FROM DEPTS'' (Some employeesSchema))
   \<and> unknownFinding \<lparr>startLineNumber = 1, startColumn = 15, endLineNumber = 1,
         endColumn = 20, message = ''Unknown table: DEPTS'', severity = Warning\<rparr>
   \<and> severity \<lparr>startLineNumber = 1, startColumn = 15, endLineNumber = 1,
         endColumn = 20, message = ''Unknown table: DEPTS'', severity = Warning\<rparr> = Warning
   \<and> severity (hd (validateDB2SQL ''SELECT * FROM T)'' None)) = Error"
proof -
  let ?d = "\<lparr>startLineNumber = 1, startColumn = 15, endLineNumber = 1, endColumn = 20,
     message = ''Unknown table: DEPTS'', severity = Warning\<rparr>"
  have v: "validateDB2SQL ''SELECT * FROM DEPTS'' (Some employeesSchema) = [?d]"
    by code_simp
  have m: "?d \<in> set (validateDB2SQL ''SELECT * FROM DEPTS'' (Some employeesSchema))"
    unfolding v by simp
  have u: "unknownFinding ?d"
    by code_simp
  have w: "severity ?d = Warning"
    using schema_findings_are_warnings [of "''SELECT * FROM DEPTS''" employeesSchema] m u
    by blast
  have e: "validateDB2SQL ''SELECT * FROM T)'' None \<noteq> []"
    by code_simp
  then have "hd (validateDB2SQL ''SELECT * FROM T)'' None)
               \<in> set (validateDB2SQL ''SELECT * FROM T)'' None)"
    by simp
  then have "severity (hd (validateDB2SQL ''SELECT * FROM T)'' None)) = Error"
    using schema_findings_are_warnings [of "''SELECT * FROM T)''" employeesSchema] by blast
  then show ?thesis
    using m u w by blast
qed

text \<open>
  C4. For every text, the sanitizer \<^verbatim>\<open>stripCommentsAndStrings\<close> returns a text of
  exactly the length of its input.
\<close>

theorem sanitizer_keeps_length: "length (stripCommentsAndStrings t) = length t"
  by (simp add: stripCommentsAndStrings_def stripStrings_def stripBlockComments_def
        stripLineComments_def length_replace_all length_blankOut length_blankOutKeepLines)

text \<open>
  C5. The sanitizer masks a block comment only when it is closed. The text
  \<^verbatim>\<open>SELECT /* abc\<close>, whose comment is never closed, comes back as it is.
\<close>

theorem unclosed_block_comment_kept:
  "stripCommentsAndStrings ''SELECT /* abc'' = ''SELECT /* abc''"
  by code_simp

text \<open>
  C5, as the code has it. For every text without \<^verbatim>\<open>*/\<close> the step for block comments
  changes nothing: the result is that of the steps for line comments and for string
  literals alone, and a text that has neither \<^verbatim>\<open>*/\<close> nor \<^verbatim>\<open>--\<close> nor a single
  quote comes back as it is, whatever \<^verbatim>\<open>/*\<close> it holds. A line comment is masked to
  the end of its line whether or not a line feed ends it: in a text
  \<open>a @ ''--'' @ c @ b\<close> where \<open>c\<close> has no line feed, every character of
  \<^verbatim>\<open>--\<close> and of \<open>c\<close> comes out as a space.
\<close>

theorem unclosed_comments_masking:
  "(indexOf t ''*/'' = None \<longrightarrow>
      stripCommentsAndStrings t = stripStrings (stripLineComments t))
   \<and> (indexOf t ''*/'' = None \<and> indexOf t ''--'' = None \<and> indexOf t [quote] = None \<longrightarrow>
      stripCommentsAndStrings t = t)
   \<and> (newline \<notin> set c \<and> length a \<le> n \<and> n < length a + 2 + length c \<longrightarrow>
      stripCommentsAndStrings (a @ ''--'' @ c @ b) ! n = CHR '' '')"
  using sanitizer_no_close [of t] stripLineComments_no_dashes [of t] stripStrings_no_quote [of t]
    sanitizer_masks_line_comment [of c a n b]
  by simp

theorem unclosed_comments_masking_witness:
  "stripCommentsAndStrings ''SELECT /* abc'' = stripStrings (stripLineComments ''SELECT /* abc'')
   \<and> stripCommentsAndStrings ''SELECT /* abc'' = ''SELECT /* abc''
   \<and> stripCommentsAndStrings (''a '' @ ''--'' @ '' /* b'' @ [newline] @ ''c'') ! 5 = CHR '' ''"
proof -
  have "indexOf ''SELECT /* abc'' ''*/'' = None" "indexOf ''SELECT /* abc'' ''--'' = None"
    "indexOf ''SELECT /* abc'' [quote] = None"
    by (simp_all add: indexOf_def quote_def)
  moreover have "newline \<notin> set '' /* b''"
    by (simp add: newline_def)
  moreover have "length ''a '' \<le> 5" "5 < length ''a '' + 2 + length '' /* b''"
    by simp_all
  ultimately show ?thesis
    using unclosed_comments_masking [of "''SELECT /* abc''" "'' /* b''" "''a ''" 5 "[newline] @ ''c''"]
    by blast
qed

end
